theory Spec2Isabelle
  imports Complex_Main "HOL-Library.Multiset" "HOL-Library.Log_Nat"
begin

section \<open>Numbers\<close>

text \<open>
  The controllers compute with JavaScript Numbers, that is IEEE 754 doubles. A number
  is a finite value, an infinity or NaN. A finite value is given by the rational it
  denotes; the sign of a zero is not kept, since no handler divides by a variable and
  comparison, truthiness and JSON treat both zeros alike.
\<close>

datatype number = Fin rat | PInf | NInf | NaN

text \<open>
  The exponent of a positive rational: \<open>2 powi (ilog2 x) \<le> x < 2 powi (ilog2 x + 1)\<close>.
\<close>

definition ilog2 :: "rat \<Rightarrow> int" where
  "ilog2 x =
     (let (a, b) = quotient_of x;
          n = bitlen a - bitlen b
      in if 2 powi n \<le> x then n else n - 1)"

text \<open>The nearest integer, a tie going to the even one.\<close>

definition round_half_even :: "rat \<Rightarrow> int" where
  "round_half_even x =
     (let f = \<lfloor>x\<rfloor>;
          d = x - of_int f
      in if d < 1 / 2 then f
         else if 1 / 2 < d then f + 1
         else if even f then f else f + 1)"

text \<open>
  The double that an exact result is rounded to: 53 significant bits, the spacing
  never below \<open>2 powi (- 1074)\<close> (subnormal range), round to nearest with ties to
  even, and an infinity when the rounded value reaches \<open>2 ^ 1024\<close>. Every arithmetic
  operation of the language returns its exact result rounded so.
\<close>

definition rnd :: "rat \<Rightarrow> number" where
  "rnd x =
     (if x = 0 then Fin 0
      else
        let q = max (ilog2 \<bar>x\<bar> - 52) (- 1074);
            m = round_half_even (\<bar>x\<bar> / 2 powi q)
        in if 971 < q \<or> (q = 971 \<and> m = 2 ^ 53) then (if 0 < x then PInf else NInf)
           else Fin (sgn x * of_int m * 2 powi q))"

text \<open>\<open>x + y\<close>, \<open>- x\<close>, \<open>x - y\<close> and \<open>x * y\<close>.\<close>

fun fadd :: "number \<Rightarrow> number \<Rightarrow> number" where
  "fadd (Fin a) (Fin b) = rnd (a + b)"
| "fadd NaN y = NaN"
| "fadd x NaN = NaN"
| "fadd PInf NInf = NaN"
| "fadd NInf PInf = NaN"
| "fadd PInf y = PInf"
| "fadd NInf y = NInf"
| "fadd x PInf = PInf"
| "fadd x NInf = NInf"

fun fneg :: "number \<Rightarrow> number" where
  "fneg (Fin a) = Fin (- a)"
| "fneg PInf = NInf"
| "fneg NInf = PInf"
| "fneg NaN = NaN"

definition fsub :: "number \<Rightarrow> number \<Rightarrow> number" where
  "fsub x y = fadd x (fneg y)"

fun fsgn :: "number \<Rightarrow> int" where
  "fsgn (Fin a) = (if a = 0 then 0 else if 0 < a then 1 else - 1)"
| "fsgn PInf = 1"
| "fsgn NInf = - 1"
| "fsgn NaN = 0"

fun fmul :: "number \<Rightarrow> number \<Rightarrow> number" where
  "fmul (Fin a) (Fin b) = rnd (a * b)"
| "fmul NaN y = NaN"
| "fmul x NaN = NaN"
| "fmul x y =
     (if fsgn x * fsgn y = 0 then NaN else if 0 < fsgn x * fsgn y then PInf else NInf)"

text \<open>\<open>x / 100\<close>: the only division of the handlers.\<close>

fun div100 :: "number \<Rightarrow> number" where
  "div100 (Fin a) = rnd (a / 100)"
| "div100 x = x"

text \<open>
  \<open>Math.round(x)\<close>: the nearest integer, a tie going towards plus infinity. The
  result is exact: an integer next to a double is a double.
\<close>

fun Math_round :: "number \<Rightarrow> number" where
  "Math_round (Fin a) = Fin (of_int \<lfloor>a + 1 / 2\<rfloor>)"
| "Math_round x = x"

text \<open>\<open>x >= y\<close>, false when either side is NaN.\<close>

fun ge :: "number \<Rightarrow> number \<Rightarrow> bool" where
  "ge NaN y = False"
| "ge x NaN = False"
| "ge PInf y = True"
| "ge x NInf = True"
| "ge NInf y = False"
| "ge x PInf = False"
| "ge (Fin a) (Fin b) = (b \<le> a)"

text \<open>The numbers that count as false in \<open>x || y\<close>: zero and NaN.\<close>

fun falsy :: "number \<Rightarrow> bool" where
  "falsy (Fin a) = (a = 0)"
| "falsy NaN = True"
| "falsy x = False"

text \<open>The number that a decimal literal of a JSON body denotes: the nearest double.\<close>

definition JSON_number :: "rat \<Rightarrow> number" where
  "JSON_number r = rnd r"

section \<open>Documents\<close>

text \<open>A cart line of the request body \<open>req.body.products\<close>.\<close>

record product =
  p_id :: string
  p_name :: string
  p_image :: string
  price :: number
  quantity :: number

text \<open>
  A line item handed to the payment gateway. The nested objects \<open>price_data\<close> and
  \<open>product_data\<close> are flattened.
\<close>

record line_item =
  li_currency :: string
  li_name :: string
  li_images :: "string list"
  unit_amount :: number
  li_quantity :: number

text \<open>
  A document of the Coupon collection. \<open>expirationDate\<close> is a time in milliseconds,
  as \<open>Date.now()\<close> gives it.
\<close>

record coupon =
  code :: string
  discountPercentage :: number
  expirationDate :: int
  isActive :: bool
  userId :: string

text \<open>An entry of the cart snapshot that travels in the session metadata.\<close>

record snapshot_item =
  sn_id :: string
  sn_quantity :: number
  sn_price :: number

text \<open>
  The text of \<open>metadata.products\<close>, represented by what \<open>JSON.parse\<close> makes of it:
  \<open>JSON.stringify\<close> of an array of snapshot entries parses back to that array, any
  other text makes \<open>JSON.parse\<close> (or the \<open>map\<close> after it) throw.
\<close>

datatype json_text = Malformed | Snapshot "snapshot_item list"

fun JSON_parse :: "json_text \<Rightarrow> snapshot_item list option" where
  "JSON_parse Malformed = None"
| "JSON_parse (Snapshot items) = Some items"

record metadata =
  md_userId :: string
  md_couponCode :: string
  md_products :: json_text

text \<open>The argument of \<open>stripe.checkout.sessions.create\<close>.\<close>

record session_request =
  payment_method_types :: "string list"
  line_items :: "line_item list"
  mode :: string
  success_url :: string
  cancel_url :: string
  discounts :: "string list"
  sr_metadata :: metadata

text \<open>What \<open>stripe.checkout.sessions.retrieve\<close> reports of a session.\<close>

record session =
  payment_status :: string
  amount_total :: number
  metadata :: metadata

record order_item =
  oi_product :: string
  oi_quantity :: number
  oi_price :: number

record order =
  o_id :: string
  o_user :: string
  o_products :: "order_item list"
  totalAmount :: number
  stripeSessionId :: string

section \<open>The store, the gateway and the environment of a request\<close>

text \<open>The calls of the payment gateway that create something there.\<close>

datatype stripe_call = CouponsCreate number | SessionsCreate session_request

text \<open>
  The persistent state: the two collections in insertion order (a query for one
  document returns the first match), and the creating calls the gateway has accepted.
\<close>

record world =
  coupons :: "coupon list"
  orders :: "order list"
  stripe :: "stripe_call list"

text \<open>The awaited calls of the handlers; each of them may reject.\<close>

datatype io_op =
  CouponFindOne
  | CouponFindOneAndUpdate
  | CouponFindOneAndDelete
  | CouponSave
  | OrderSave
  | StripeCouponsCreate
  | StripeSessionsCreate

text \<open>
  Everything a handler reads from outside the store while it serves one request:
  the clock, the random suffix of a gift code, which awaited calls reject, the
  identifiers the gateway and the driver hand out, what the gateway reports of a
  session (\<open>None\<close>: the retrieval rejects), the configured client address, and
  whether the Order collection refuses a second document with the same
  \<open>stripeSessionId\<close> (its schema is not among the sources, so this is a parameter).
\<close>

record env =
  now :: int
  random_suffix :: string
  fails :: "io_op \<Rightarrow> bool"
  stripe_coupon_id :: string
  stripe_session_id :: string
  stripe_retrieve :: "string \<Rightarrow> session option"
  new_order_id :: string
  client_url :: string
  unique_stripeSessionId :: bool

text \<open>What a handler sends back. \<open>NoResponse\<close>: the handler ends without sending.\<close>

datatype response =
  NoResponse
  | InvalidProducts
  | CheckoutOk string number
  | CheckoutError
  | SuccessOk string
  | SuccessError
  | CouponJson "coupon option"
  | CouponNotFound
  | CouponExpired
  | CouponValid string number
  | ServerError

fun status :: "response \<Rightarrow> nat option" where
  "status NoResponse = None"
| "status InvalidProducts = Some 400"
| "status (CheckoutOk i t) = Some 200"
| "status CheckoutError = Some 500"
| "status (SuccessOk i) = Some 200"
| "status SuccessError = Some 500"
| "status (CouponJson c) = Some 200"
| "status CouponNotFound = Some 404"
| "status CouponExpired = Some 404"
| "status (CouponValid c d) = Some 200"
| "status ServerError = Some 500"

section \<open>Queries on a collection\<close>

text \<open>\<open>Model.findOne(q)\<close>: the first document that matches.\<close>

fun findOne :: "('a \<Rightarrow> bool) \<Rightarrow> 'a list \<Rightarrow> 'a option" where
  "findOne q [] = None"
| "findOne q (d # ds) = (if q d then Some d else findOne q ds)"

text \<open>
  \<open>Model.findOneAndUpdate(q, u)\<close>: the first document that matches is updated in
  place; no match changes nothing. Saving a document that \<open>findOne q\<close> returned,
  after a change \<open>u\<close> of it, writes the same row.
\<close>

fun findOneAndUpdate :: "('a \<Rightarrow> bool) \<Rightarrow> ('a \<Rightarrow> 'a) \<Rightarrow> 'a list \<Rightarrow> 'a list" where
  "findOneAndUpdate q u [] = []"
| "findOneAndUpdate q u (d # ds) = (if q d then u d # ds else d # findOneAndUpdate q u ds)"

text \<open>\<open>Model.findOneAndDelete(q)\<close>: the first document that matches is removed.\<close>

fun findOneAndDelete :: "('a \<Rightarrow> bool) \<Rightarrow> 'a list \<Rightarrow> 'a list" where
  "findOneAndDelete q [] = []"
| "findOneAndDelete q (d # ds) = (if q d then ds else d # findOneAndDelete q ds)"

section \<open>payment.controller.js\<close>

text \<open>
  Modelled from the spec: the Coupon schema (\<open>models/coupon.model.js\<close>) is not among
  the sources; it supplies \<open>isActive\<close> when the constructor call leaves it out. The
  spec has a freshly issued gift coupon active, so the default is \<open>True\<close>.
\<close>

definition coupon_isActive_default :: bool where
  "coupon_isActive_default = True"

text \<open>
  \<open>createNewCoupon(userId)\<close>: delete one coupon of the user, build the gift coupon,
  save it. The result is the thrown failure or the new coupon, with the store as the
  call leaves it.
\<close>

definition new_gift_coupon :: "env \<Rightarrow> string \<Rightarrow> coupon" where
  "new_gift_coupon e uid =
     \<lparr>code = ''GIFT'' @ random_suffix e,
      discountPercentage = Fin 10,
      expirationDate = now e + 30 * 24 * 60 * 60 * 1000,
      isActive = coupon_isActive_default,
      userId = uid\<rparr>"

definition createNewCoupon :: "env \<Rightarrow> string \<Rightarrow> world \<Rightarrow> (io_op + coupon) \<times> world" where
  "createNewCoupon e uid w =
     (if fails e CouponFindOneAndDelete then (Inl CouponFindOneAndDelete, w)
      else
        let w1 = w\<lparr>coupons := findOneAndDelete (\<lambda>c. userId c = uid) (coupons w)\<rparr>;
            newCoupon = new_gift_coupon e uid
        in if fails e CouponSave then (Inl CouponSave, w1)
           else (Inr newCoupon, w1\<lparr>coupons := coupons w1 @ [newCoupon]\<rparr>))"

text \<open>
  The body of \<open>products.map\<close> in \<open>createCheckoutSession\<close>: it builds the line items
  and adds to the running \<open>totalAmount\<close> as a side effect. \<open>product.quantity || 1\<close>
  is 1 for a falsy quantity (0 or NaN).
\<close>

definition lineItem :: "product \<Rightarrow> line_item" where
  "lineItem p =
     \<lparr>li_currency = ''usd'',
      li_name = p_name p,
      li_images = [p_image p],
      unit_amount = Math_round (fmul (price p) (Fin 100)),
      li_quantity = (if falsy (quantity p) then Fin 1 else quantity p)\<rparr>"

fun lineItems_loop :: "product list \<Rightarrow> number \<Rightarrow> line_item list \<times> number" where
  "lineItems_loop [] tot = ([], tot)"
| "lineItems_loop (p # ps) tot =
     (let amount = Math_round (fmul (price p) (Fin 100));
          (items, tot') = lineItems_loop ps (fadd tot (fmul amount (quantity p)))
      in (lineItem p # items, tot'))"

text \<open>
  The request body of the checkout: \<open>products\<close> is \<open>None\<close> when it is not an array,
  \<open>couponCode\<close> is \<open>None\<close> when it is absent. A coupon code is truthy when it is a
  non-empty string.
\<close>

record checkout_body =
  products :: "product list option"
  couponCode :: "string option"

fun truthy :: "string option \<Rightarrow> bool" where
  "truthy None = False"
| "truthy (Some s) = (s \<noteq> [])"

fun or_empty :: "string option \<Rightarrow> string" where
  "or_empty None = []"
| "or_empty (Some s) = s"

definition checkout_metadata :: "string \<Rightarrow> string option \<Rightarrow> product list \<Rightarrow> metadata" where
  "checkout_metadata uid cc ps =
     \<lparr>md_userId = uid,
      md_couponCode = or_empty cc,
      md_products =
        Snapshot (map (\<lambda>p. \<lparr>sn_id = p_id p, sn_quantity = quantity p, sn_price = price p\<rparr>) ps)\<rparr>"

definition checkout_request ::
  "env \<Rightarrow> string \<Rightarrow> string option \<Rightarrow> product list \<Rightarrow> line_item list \<Rightarrow> coupon option
     \<Rightarrow> session_request" where
  "checkout_request e uid cc ps lineItems cpn =
     \<lparr>payment_method_types = [''card''],
      line_items = lineItems,
      mode = ''payment'',
      success_url = client_url e @ ''/purchase-success?session_id={CHECKOUT_SESSION_ID}'',
      cancel_url = client_url e @ ''/purchase-cancel'',
      discounts = (case cpn of None \<Rightarrow> [] | Some c \<Rightarrow> [stripe_coupon_id e]),
      sr_metadata = checkout_metadata uid cc ps\<rparr>"

text \<open>
  \<open>createCheckoutSession\<close>, for the authenticated user \<open>uid\<close> (\<open>req.user._id\<close>).
  Every rejected await ends in the handler's \<open>catch\<close>, which answers 500.
\<close>

definition createCheckoutSession ::
  "env \<Rightarrow> string \<Rightarrow> checkout_body \<Rightarrow> world \<Rightarrow> response \<times> world" where
  "createCheckoutSession e uid body w =
     (case products body of
        None \<Rightarrow> (InvalidProducts, w)
      | Some [] \<Rightarrow> (InvalidProducts, w)
      | Some (p # ps') \<Rightarrow>
          let ps = p # ps';
              cc = couponCode body;
              (lineItems, total0) = lineItems_loop ps (Fin 0)
          in if truthy cc \<and> fails e CouponFindOne then (CheckoutError, w)
             else
               let cpn = (if truthy cc
                          then findOne (\<lambda>c. code c = or_empty cc \<and> userId c = uid \<and> isActive c)
                                 (coupons w)
                          else None);
                   total1 = (case cpn of
                               None \<Rightarrow> total0
                             | Some c \<Rightarrow>
                                 fsub total0
                                   (Math_round (div100 (fmul total0 (discountPercentage c)))))
               in if cpn \<noteq> None \<and> fails e StripeCouponsCreate then (CheckoutError, w)
                  else
                    let w1 = (case cpn of
                                None \<Rightarrow> w
                              | Some c \<Rightarrow>
                                  w\<lparr>stripe := stripe w @ [CouponsCreate (discountPercentage c)]\<rparr>)
                    in if fails e StripeSessionsCreate then (CheckoutError, w1)
                       else
                         let w2 = w1\<lparr>stripe := stripe w1 @
                                    [SessionsCreate (checkout_request e uid cc ps lineItems cpn)]\<rparr>
                         in if ge total1 (Fin 20000)
                            then (case createNewCoupon e uid w2 of
                                    (Inl err, w3) \<Rightarrow> (CheckoutError, w3)
                                  | (Inr c, w3) \<Rightarrow>
                                      (CheckoutOk (stripe_session_id e) (div100 total1), w3))
                            else (CheckoutOk (stripe_session_id e) (div100 total1), w2))"

text \<open>
  \<open>newOrder.save()\<close>: the document is appended, unless the call rejects. A collection
  with a unique index on \<open>stripeSessionId\<close> rejects a second document for a session.
\<close>

definition Order_save :: "env \<Rightarrow> order \<Rightarrow> order list \<Rightarrow> order list option" where
  "Order_save e newOrder os =
     (if fails e OrderSave \<or>
         (unique_stripeSessionId e \<and> stripeSessionId newOrder \<in> set (map stripeSessionId os))
      then None
      else Some (os @ [newOrder]))"

definition order_items :: "snapshot_item list \<Rightarrow> order_item list" where
  "order_items items =
     map (\<lambda>i. \<lparr>oi_product = sn_id i, oi_quantity = sn_quantity i, oi_price = sn_price i\<rparr>) items"

text \<open>
  \<open>checkoutSuccess\<close>, for the session identifier of the request body. When the
  payment status is not \<open>paid\<close> the handler ends without a response.
\<close>

definition checkoutSuccess :: "env \<Rightarrow> string \<Rightarrow> world \<Rightarrow> response \<times> world" where
  "checkoutSuccess e sessionId w =
     (case stripe_retrieve e sessionId of
        None \<Rightarrow> (SuccessError, w)
      | Some s \<Rightarrow>
          if payment_status s = ''paid''
          then
            let md = metadata s
            in if md_couponCode md \<noteq> [] \<and> fails e CouponFindOneAndUpdate then (SuccessError, w)
               else
                 let w1 = (if md_couponCode md \<noteq> []
                           then w\<lparr>coupons :=
                                  findOneAndUpdate
                                    (\<lambda>c. code c = md_couponCode md \<and> userId c = md_userId md)
                                    (\<lambda>c. c\<lparr>isActive := False\<rparr>) (coupons w)\<rparr>
                           else w)
                 in case JSON_parse (md_products md) of
                      None \<Rightarrow> (SuccessError, w1)
                    | Some items \<Rightarrow>
                        let newOrder =
                              \<lparr>o_id = new_order_id e,
                               o_user = md_userId md,
                               o_products = order_items items,
                               totalAmount = div100 (amount_total s),
                               stripeSessionId = sessionId\<rparr>
                        in (case Order_save e newOrder (orders w1) of
                              None \<Rightarrow> (SuccessError, w1)
                            | Some os \<Rightarrow> (SuccessOk (o_id newOrder), w1\<lparr>orders := os\<rparr>))
          else (NoResponse, w))"

section \<open>coupon.controller.js\<close>

definition getCoupon :: "env \<Rightarrow> string \<Rightarrow> world \<Rightarrow> response \<times> world" where
  "getCoupon e uid w =
     (if fails e CouponFindOne then (ServerError, w)
      else (CouponJson (findOne (\<lambda>c. userId c = uid \<and> isActive c) (coupons w)), w))"

text \<open>
  \<open>validateCoupon\<close>, for the authenticated user \<open>uid\<close> and the code of the request
  body. The coupon counts as expired when its expiration date lies before the clock
  (\<open>coupon.expirationDate < new Date()\<close>).
\<close>

definition validateCoupon :: "env \<Rightarrow> string \<Rightarrow> string \<Rightarrow> world \<Rightarrow> response \<times> world" where
  "validateCoupon e uid cd w =
     (if fails e CouponFindOne then (ServerError, w)
      else
        case findOne (\<lambda>c. code c = cd \<and> userId c = uid \<and> isActive c) (coupons w) of
          None \<Rightarrow> (CouponNotFound, w)
        | Some c \<Rightarrow>
            if expirationDate c < now e
            then (if fails e CouponSave then (ServerError, w)
                  else (CouponExpired,
                        w\<lparr>coupons :=
                            findOneAndUpdate
                              (\<lambda>c. code c = cd \<and> userId c = uid \<and> isActive c)
                              (\<lambda>c. c\<lparr>isActive := False\<rparr>) (coupons w)\<rparr>))
            else (CouponValid (code c) (discountPercentage c), w))"

section \<open>The totals in closed form, and sample data\<close>

text \<open>
  The unit price of a product in cents, \<open>round(price * 100)\<close>, and the running total
  of the loop after one more item.
\<close>

definition cents :: "product \<Rightarrow> number" where
  "cents p = Math_round (fmul (price p) (Fin 100))"

definition add_item :: "number \<Rightarrow> product \<Rightarrow> number" where
  "add_item t p = fadd t (fmul (cents p) (quantity p))"

text \<open>
  The total of a cart: the sum of \<open>round(price * 100) * quantity\<close> over the items,
  added from left to right in double arithmetic.
\<close>

definition cart_total :: "product list \<Rightarrow> number" where
  "cart_total ps = foldl add_item (Fin 0) ps"

text \<open>The discount as the spec writes it: \<open>T - round(T * d / 100)\<close>, or \<open>T\<close> with no coupon.\<close>

fun spec_discounted :: "number \<Rightarrow> coupon option \<Rightarrow> number" where
  "spec_discounted T None = T"
| "spec_discounted T (Some c) = fsub T (Math_round (div100 (fmul T (discountPercentage c))))"

text \<open>
  The same sum in exact arithmetic, for whole numbers. \<open>int_of\<close> is the integer that a
  number is, if it is one; an item is whole when its cents and its quantity are; a
  cart is whole when its items are and their absolute values add up to at most
  \<open>2 ^ 53\<close>, the range in which doubles hold every integer.
\<close>

fun int_of :: "number \<Rightarrow> int option" where
  "int_of (Fin a) = (if a = of_int \<lfloor>a\<rfloor> then Some \<lfloor>a\<rfloor> else None)"
| "int_of x = None"

fun int_or_0 :: "number \<Rightarrow> int" where
  "int_or_0 x = (case int_of x of None \<Rightarrow> 0 | Some k \<Rightarrow> k)"

definition whole_item :: "product \<Rightarrow> bool" where
  "whole_item p = (int_of (cents p) \<noteq> None \<and> int_of (quantity p) \<noteq> None)"

definition item_value :: "product \<Rightarrow> int" where
  "item_value p = int_or_0 (cents p) * int_or_0 (quantity p)"

definition exact_total :: "product list \<Rightarrow> int" where
  "exact_total ps = (\<Sum>p\<leftarrow>ps. item_value p)"

definition whole_cart :: "product list \<Rightarrow> bool" where
  "whole_cart ps = (list_all whole_item ps \<and> (\<Sum>p\<leftarrow>ps. \<bar>item_value p\<bar>) \<le> 2 ^ 53)"

text \<open>The coupon that the checkout of user \<open>uid\<close> with coupon code \<open>cc\<close> finds.\<close>

definition found_coupon :: "string \<Rightarrow> string option \<Rightarrow> world \<Rightarrow> coupon option" where
  "found_coupon uid cc w =
     (if truthy cc
      then findOne (\<lambda>c. code c = or_empty cc \<and> userId c = uid \<and> isActive c) (coupons w)
      else None)"

text \<open>An environment in which no call rejects, at time \<open>t\<close>.\<close>

definition env_ok :: "int \<Rightarrow> (string \<Rightarrow> session option) \<Rightarrow> env" where
  "env_ok t sessions =
     \<lparr>now = t,
      random_suffix = ''A1B2C3'',
      fails = (\<lambda>_. False),
      stripe_coupon_id = ''co_1'',
      stripe_session_id = ''cs_1'',
      stripe_retrieve = sessions,
      new_order_id = ''o1'',
      client_url = ''http://localhost:5173'',
      unique_stripeSessionId = False\<rparr>"

text \<open>The empty store, and a product and a coupon with the fields that matter.\<close>

definition world0 :: world where
  "world0 = \<lparr>coupons = [], orders = [], stripe = []\<rparr>"

definition mk_product :: "string \<Rightarrow> number \<Rightarrow> number \<Rightarrow> product" where
  "mk_product i pr q = \<lparr>p_id = i, p_name = i, p_image = [], price = pr, quantity = q\<rparr>"

definition mk_coupon :: "string \<Rightarrow> string \<Rightarrow> number \<Rightarrow> int \<Rightarrow> bool \<Rightarrow> coupon" where
  "mk_coupon uid cd d t a =
     \<lparr>code = cd, discountPercentage = d, expirationDate = t, isActive = a, userId = uid\<rparr>"

text \<open>An environment in which exactly the call \<open>op\<close> rejects.\<close>

definition env_failing :: "io_op \<Rightarrow> int \<Rightarrow> (string \<Rightarrow> session option) \<Rightarrow> env" where
  "env_failing op t sessions = (env_ok t sessions)\<lparr>fails := (\<lambda>x. x = op)\<rparr>"

definition paid_session :: "string \<Rightarrow> string \<Rightarrow> number \<Rightarrow> snapshot_item list \<Rightarrow> session" where
  "paid_session uid cd amount items =
     \<lparr>payment_status = ''paid'',
      amount_total = amount,
      metadata = \<lparr>md_userId = uid, md_couponCode = cd, md_products = Snapshot items\<rparr>\<rparr>"

text \<open>A gateway that knows no session, and one that knows the session \<open>sid\<close> only.\<close>

definition no_sessions :: "string \<Rightarrow> session option" where
  "no_sessions sid = None"

definition one_session :: "string \<Rightarrow> session \<Rightarrow> string \<Rightarrow> session option" where
  "one_session sid s x = (if x = sid then Some s else None)"

section \<open>What a checkout leaves at the gateway\<close>

text \<open>
  The state after the two gateway calls of a checkout that both were accepted: the
  percent-off coupon, when a coupon was found, and then the session.
\<close>

definition gateway_after ::
  "env \<Rightarrow> string \<Rightarrow> string option \<Rightarrow> product list \<Rightarrow> world \<Rightarrow> world" where
  "gateway_after e uid cc ps w =
     (let cpn = found_coupon uid cc w;
          w1 = (case cpn of
                  None \<Rightarrow> w
                | Some c \<Rightarrow> w\<lparr>stripe := stripe w @ [CouponsCreate (discountPercentage c)]\<rparr>)
      in w1\<lparr>stripe := stripe w1 @
              [SessionsCreate (checkout_request e uid cc ps (map lineItem ps) cpn)]\<rparr>)"

text \<open>The checkout gets as far as the gift step: no call before it rejects.\<close>

definition reaches_gift_step :: "env \<Rightarrow> string \<Rightarrow> string option \<Rightarrow> world \<Rightarrow> bool" where
  "reaches_gift_step e uid cc w =
     (\<not> (truthy cc \<and> fails e CouponFindOne) \<and>
      \<not> (found_coupon uid cc w \<noteq> None \<and> fails e StripeCouponsCreate) \<and>
      \<not> fails e StripeSessionsCreate)"

text \<open>The session requests among the gateway calls, oldest first.\<close>

fun sessions_created :: "stripe_call list \<Rightarrow> session_request list" where
  "sessions_created [] = []"
| "sessions_created (CouponsCreate d # cs) = sessions_created cs"
| "sessions_created (SessionsCreate r # cs) = r # sessions_created cs"


section \<open>Sequences of requests\<close>

datatype request =
  Checkout string checkout_body
  | Success string
  | GetCoupon string
  | ValidateCoupon string string

fun handle :: "env \<Rightarrow> request \<Rightarrow> world \<Rightarrow> response \<times> world" where
  "handle e (Checkout uid body) w = createCheckoutSession e uid body w"
| "handle e (Success sessionId) w = checkoutSuccess e sessionId w"
| "handle e (GetCoupon uid) w = getCoupon e uid w"
| "handle e (ValidateCoupon uid cd) w = validateCoupon e uid cd w"

text \<open>The store after a sequence of requests, each served in its own environment.\<close>

fun run :: "(env \<times> request) list \<Rightarrow> world \<Rightarrow> world" where
  "run [] w = w"
| "run ((e, r) # rs) w = run rs (snd (handle e r w))"

text \<open>The store after a sequence of gift issuances for one user.\<close>

fun issue :: "string \<Rightarrow> env list \<Rightarrow> world \<Rightarrow> world" where
  "issue uid [] w = w"
| "issue uid (e # es) w = issue uid es (snd (createNewCoupon e uid w))"

text \<open>The coupons of a user that are active.\<close>

definition active_coupons :: "string \<Rightarrow> world \<Rightarrow> coupon list" where
  "active_coupons uid w = filter (\<lambda>c. userId c = uid \<and> isActive c) (coupons w)"

section \<open>Doubles hold the integers up to \<open>2 ^ 53\<close>\<close>

lemma round_half_even_of_int: "round_half_even (of_int k) = k"
  by (simp add: round_half_even_def)

lemma ilog2_le:
  assumes "0 < x"
  shows "2 powi (ilog2 x) \<le> x"
proof -
  obtain a b where ab: "quotient_of x = (a, b)"
    by (cases "quotient_of x")
  then have b: "0 < b" and x: "x = of_int a / of_int b"
    by (simp_all add: quotient_of_denom_pos quotient_of_div)
  with assms have a: "0 < a"
    by (simp add: zero_less_divide_iff)
  let ?n = "bitlen a - bitlen b"
  show ?thesis
  proof (cases "2 powi ?n \<le> x")
    case True
    then show ?thesis
      by (simp add: ilog2_def ab)
  next
    case False
    from bitlen_bounds [OF a] have "2 ^ nat (bitlen a - 1) \<le> a"
      by simp
    then have "rat_of_int (2 ^ nat (bitlen a - 1)) \<le> rat_of_int a"
      by (simp only: of_int_le_iff)
    then have la: "(2::rat) ^ nat (bitlen a - 1) \<le> of_int a"
      by simp
    from bitlen_bounds [OF b] have "b \<le> 2 ^ nat (bitlen b)"
      by simp
    then have "rat_of_int b \<le> rat_of_int (2 ^ nat (bitlen b))"
      by (simp only: of_int_le_iff)
    then have lb: "of_int b \<le> (2::rat) ^ nat (bitlen b)"
      by simp
    have pa: "1 \<le> bitlen a"
      using bitlen_nonneg [of a] bitlen_eq_zero_iff [of a] a by linarith
    have nb: "0 \<le> bitlen b"
      by (rule bitlen_nonneg)
    have "(2::rat) powi ((bitlen a - 1) - bitlen b) = 2 powi (bitlen a - 1) / 2 powi (bitlen b)"
      by (rule power_int_diff) simp
    moreover have "?n - 1 = (bitlen a - 1) - bitlen b"
      by simp
    ultimately have "(2::rat) powi (?n - 1) = 2 powi (bitlen a - 1) / 2 powi (bitlen b)"
      by (simp only:)
    also have "\<dots> = 2 ^ nat (bitlen a - 1) / 2 ^ nat (bitlen b)"
      using pa nb by (simp add: power_int_nonneg_exp)
    also have "\<dots> \<le> of_int a / of_int b"
      using la lb a b by (intro frac_le) simp_all
    finally have "2 powi (?n - 1) \<le> x"
      by (simp add: x)
    with False show ?thesis
      by (simp add: ilog2_def ab)
  qed
qed

lemma ilog2_less:
  assumes "0 < x"
  shows "x < 2 powi (ilog2 x + 1)"
proof -
  obtain a b where ab: "quotient_of x = (a, b)"
    by (cases "quotient_of x")
  then have b: "0 < b" and x: "x = of_int a / of_int b"
    by (simp_all add: quotient_of_denom_pos quotient_of_div)
  with assms have a: "0 < a"
    by (simp add: zero_less_divide_iff)
  let ?n = "bitlen a - bitlen b"
  show ?thesis
  proof (cases "2 powi ?n \<le> x")
    case False
    then show ?thesis
      by (simp add: ilog2_def ab)
  next
    case True
    from bitlen_bounds [OF a] have "a < 2 ^ nat (bitlen a)"
      by simp
    then have "rat_of_int a < rat_of_int (2 ^ nat (bitlen a))"
      by (simp only: of_int_less_iff)
    then have la: "of_int a < (2::rat) ^ nat (bitlen a)"
      by simp
    from bitlen_bounds [OF b] have "2 ^ nat (bitlen b - 1) \<le> b"
      by simp
    then have "rat_of_int (2 ^ nat (bitlen b - 1)) \<le> rat_of_int b"
      by (simp only: of_int_le_iff)
    then have lb: "(2::rat) ^ nat (bitlen b - 1) \<le> of_int b"
      by simp
    have pb: "1 \<le> bitlen b"
      using bitlen_nonneg [of b] bitlen_eq_zero_iff [of b] b by linarith
    have na: "0 \<le> bitlen a"
      by (rule bitlen_nonneg)
    have "of_int a / of_int b < (2::rat) ^ nat (bitlen a) / 2 ^ nat (bitlen b - 1)"
      using la lb a b by (intro frac_less) simp_all
    also have "\<dots> = 2 powi (bitlen a) / 2 powi (bitlen b - 1)"
      using pb na by (simp add: power_int_nonneg_exp)
    also have "\<dots> = 2 powi (bitlen a - (bitlen b - 1))"
      by (rule power_int_diff [symmetric]) simp
    also have "bitlen a - (bitlen b - 1) = ?n + 1"
      by simp
    finally have "x < 2 powi (?n + 1)"
      by (simp add: x)
    with True show ?thesis
      by (simp add: ilog2_def ab)
  qed
qed

lemma rnd_of_int:
  assumes "\<bar>n\<bar> \<le> 2 ^ 53"
  shows "rnd (of_int n) = Fin (of_int n)"
proof (cases "n = 0")
  case True
  then show ?thesis
    by (simp add: rnd_def)
next
  case False
  define x :: rat where "x = of_int \<bar>n\<bar>"
  define e where "e = ilog2 x"
  define q where "q = max (e - 52) (- 1074)"
  from False have pos: "0 < x"
    by (simp add: x_def)
  from assms have "rat_of_int \<bar>n\<bar> \<le> rat_of_int (2 ^ 53)"
    by (simp only: of_int_le_iff)
  then have up: "x \<le> 2 ^ 53"
    by (simp add: x_def)
  have low: "2 powi e \<le> x"
    unfolding e_def using pos by (rule ilog2_le)
  have "(2::rat) powi 53 = 2 ^ 53"
    by simp
  with low up have "(2::rat) powi e \<le> 2 powi 53"
    by (simp only: order_trans)
  then have e: "e \<le> 53"
    by (rule power_int_le_imp_le_exp [rotated]) simp_all
  then have q: "q \<le> 1"
    by (simp add: q_def)
  have "\<exists>k. x / 2 powi q = of_int k"
  proof (cases "q \<le> 0")
    case True
    then have "x / 2 powi q = x * 2 ^ nat (- q)"
      by (simp add: power_int_def field_simps)
    also have "\<dots> = of_int (\<bar>n\<bar> * 2 ^ nat (- q))"
      by (simp add: x_def)
    finally show ?thesis
      by blast
  next
    case False
    with q have q1: "q = 1"
      by simp
    then have "e = 53"
      by (simp add: q_def)
    with low have "(2::rat) ^ 53 \<le> x"
      by simp
    with up have "x = 2 ^ 53"
      by simp
    then have "x / 2 powi q = of_int (2 ^ 52)"
      by (simp add: q1)
    then show ?thesis
      by blast
  qed
  then obtain k where k: "x / 2 powi q = of_int k"
    by blast
  then have mk: "of_int k * 2 powi q = x"
    by (simp add: field_simps)
  have ab: "\<bar>of_int n :: rat\<bar> = x"
    by (simp add: x_def)
  have sg: "sgn (of_int n :: rat) * x = of_int n"
    by (simp add: x_def sgn_if)
  have nz: "(of_int n :: rat) \<noteq> 0"
    using False by simp
  have "rnd (of_int n) =
      (let q = max (ilog2 x - 52) (- 1074);
           m = round_half_even (x / 2 powi q)
       in if 971 < q \<or> (q = 971 \<and> m = 2 ^ 53)
          then (if 0 < (of_int n :: rat) then PInf else NInf)
          else Fin (sgn (of_int n) * of_int m * 2 powi q))"
    unfolding rnd_def ab using nz by (simp only: if_False)
  also have "\<dots> = Fin (sgn (of_int n) * of_int k * 2 powi q)"
    using q unfolding Let_def e_def [symmetric] q_def [symmetric] k round_half_even_of_int
    by simp
  also have "sgn (of_int n :: rat) * of_int k * 2 powi q = of_int n"
    using mk sg by (simp add: mult.assoc)
  finally show ?thesis .
qed

lemma int_of_Some: "int_of x = Some k \<Longrightarrow> x = Fin (of_int k)"
  by (cases x) (simp_all split: if_splits)

lemma fmul_int:
  "\<bar>a * k\<bar> \<le> 2 ^ 53 \<Longrightarrow> fmul (Fin (of_int a)) (Fin (of_int k)) = Fin (of_int (a * k))"
  using rnd_of_int [of "a * k"] by simp

lemma fadd_int:
  "\<bar>a + k\<bar> \<le> 2 ^ 53 \<Longrightarrow> fadd (Fin (of_int a)) (Fin (of_int k)) = Fin (of_int (a + k))"
  using rnd_of_int [of "a + k"] by simp

text \<open>Adding a whole item to a whole running total is exact while the sum stays in range.\<close>

lemma add_item_exact:
  assumes "whole_item p" and "\<bar>s\<bar> + \<bar>item_value p\<bar> \<le> 2 ^ 53"
  shows "add_item (Fin (of_int s)) p = Fin (of_int (s + item_value p))"
proof -
  from assms(1) obtain a k where a: "int_of (cents p) = Some a" and k: "int_of (quantity p) = Some k"
    by (auto simp: whole_item_def)
  then have c: "cents p = Fin (of_int a)" and q: "quantity p = Fin (of_int k)"
    by (simp_all add: int_of_Some)
  have v: "item_value p = a * k"
    by (simp add: item_value_def a k)
  from assms(2) have "\<bar>a * k\<bar> \<le> 2 ^ 53" and "\<bar>s + a * k\<bar> \<le> 2 ^ 53"
    unfolding v by linarith+
  then show ?thesis
    unfolding add_item_def c q v by (simp only: fmul_int fadd_int)
qed

lemma foldl_add_item_exact:
  "list_all whole_item ps \<Longrightarrow> \<bar>s\<bar> + (\<Sum>p\<leftarrow>ps. \<bar>item_value p\<bar>) \<le> 2 ^ 53 \<Longrightarrow>
   foldl add_item (Fin (of_int s)) ps = Fin (of_int (s + exact_total ps))"
proof (induction ps arbitrary: s)
  case Nil
  show ?case
    by (simp add: exact_total_def)
next
  case (Cons p ps)
  from Cons.prems have w: "whole_item p" and ws: "list_all whole_item ps"
    by simp_all
  have nn: "0 \<le> (\<Sum>p\<leftarrow>ps. \<bar>item_value p\<bar>)"
    by (rule sum_list_nonneg) auto
  from Cons.prems(2) nn have r: "\<bar>s\<bar> + \<bar>item_value p\<bar> \<le> 2 ^ 53"
    by simp
  from Cons.prems(2) have "\<bar>s + item_value p\<bar> + (\<Sum>p\<leftarrow>ps. \<bar>item_value p\<bar>) \<le> 2 ^ 53"
    by simp
  with ws have "foldl add_item (Fin (of_int (s + item_value p))) ps =
      Fin (of_int (s + item_value p + exact_total ps))"
    by (rule Cons.IH)
  then show ?case
    by (simp add: add_item_exact [OF w r] exact_total_def add.assoc)
qed

lemma cart_total_exact:
  "whole_cart ps \<Longrightarrow> cart_total ps = Fin (of_int (exact_total ps))"
  using foldl_add_item_exact [of ps 0] by (simp add: whole_cart_def cart_total_def)

text \<open>The exact sum and the wholeness of a cart do not depend on the order of the items.\<close>

lemma exact_total_mset:
  assumes "mset ps' = mset ps"
  shows "exact_total ps' = exact_total ps"
proof -
  from assms have "mset (map item_value ps') = mset (map item_value ps)"
    by simp
  then have "sum_mset (mset (map item_value ps')) = sum_mset (mset (map item_value ps))"
    by (rule arg_cong)
  then show ?thesis
    by (simp only: sum_mset_sum_list exact_total_def)
qed

lemma whole_cart_mset:
  assumes "mset ps' = mset ps" and "whole_cart ps"
  shows "whole_cart ps'"
proof -
  let ?f = "\<lambda>p. \<bar>item_value p\<bar>"
  from assms(1) have "mset (map ?f ps') = mset (map ?f ps)"
    by simp
  then have "sum_mset (mset (map ?f ps')) = sum_mset (mset (map ?f ps))"
    by (rule arg_cong)
  then have s: "(\<Sum>p\<leftarrow>ps'. \<bar>item_value p\<bar>) = (\<Sum>p\<leftarrow>ps. \<bar>item_value p\<bar>)"
    by (simp only: sum_mset_sum_list)
  from assms(1) have "set ps' = set ps"
    by (rule mset_eq_setD)
  with assms(2) s show ?thesis
    by (simp add: whole_cart_def list_all_iff)
qed

lemma cart_total_mset:
  assumes "mset ps' = mset ps" and "whole_cart ps"
  shows "cart_total ps' = cart_total ps"
  using cart_total_exact [OF assms(2)] cart_total_exact [OF whole_cart_mset [OF assms]]
    exact_total_mset [OF assms(1)]
  by simp

section \<open>The checkout, step by step\<close>

text \<open>The loop over the products builds one line item each and adds up the total.\<close>

lemma lineItems_loop_foldl:
  "lineItems_loop ps acc = (map lineItem ps, foldl add_item acc ps)"
  by (induction ps arbitrary: acc) (simp_all add: add_item_def cents_def Let_def)

lemma lineItems_loop_eq: "lineItems_loop ps (Fin 0) = (map lineItem ps, cart_total ps)"
  by (simp add: lineItems_loop_foldl cart_total_def)

lemma createNewCoupon_no_failure:
  "\<not> fails e CouponFindOneAndDelete \<Longrightarrow> \<not> fails e CouponSave \<Longrightarrow>
   createNewCoupon e uid w =
     (Inr (new_gift_coupon e uid),
      w\<lparr>coupons := findOneAndDelete (\<lambda>c. userId c = uid) (coupons w) @ [new_gift_coupon e uid]\<rparr>)"
  by (simp add: createNewCoupon_def Let_def)

lemma createCheckoutSession_gift_step:
  assumes "ps \<noteq> []" and "reaches_gift_step e uid cc w"
  shows "createCheckoutSession e uid \<lparr>products = Some ps, couponCode = cc\<rparr> w =
     (let total1 = spec_discounted (cart_total ps) (found_coupon uid cc w);
          w2 = gateway_after e uid cc ps w
      in if ge total1 (Fin 20000)
         then (case createNewCoupon e uid w2 of
                 (Inl err, w3) \<Rightarrow> (CheckoutError, w3)
               | (Inr c, w3) \<Rightarrow> (CheckoutOk (stripe_session_id e) (div100 total1), w3))
         else (CheckoutOk (stripe_session_id e) (div100 total1), w2))"
proof -
  obtain p ps' where ps: "ps = p # ps'"
    using assms(1) by (cases ps) auto
  have f1: "(truthy cc \<and> fails e CouponFindOne) = False"
    and f3: "fails e StripeSessionsCreate = False"
    using assms(2) by (simp_all add: reaches_gift_step_def)
  show ?thesis
  proof (cases "found_coupon uid cc w")
    case None
    then have cpn: "(if truthy cc
        then findOne (\<lambda>c. code c = or_empty cc \<and> userId c = uid \<and> isActive c) (coupons w)
        else None) = None"
      by (simp add: found_coupon_def)
    show ?thesis
      unfolding ps createCheckoutSession_def gateway_after_def None
      by (simp add: lineItems_loop_eq cpn f1 f3 Let_def split: prod.split sum.split
          del: lineItems_loop.simps)
  next
    case (Some c)
    then have cpn: "(if truthy cc
        then findOne (\<lambda>c. code c = or_empty cc \<and> userId c = uid \<and> isActive c) (coupons w)
        else None) = Some c"
      by (simp add: found_coupon_def)
    from Some assms(2) have f2: "fails e StripeCouponsCreate = False"
      by (simp add: reaches_gift_step_def)
    show ?thesis
      unfolding ps createCheckoutSession_def gateway_after_def Some
      by (simp add: lineItems_loop_eq cpn f1 f2 f3 Let_def split: prod.split sum.split
          del: lineItems_loop.simps)
  qed
qed

lemma no_failure_reaches_gift_step:
  "\<forall>op. \<not> fails e op \<Longrightarrow> reaches_gift_step e uid cc w"
  by (simp add: reaches_gift_step_def)

lemma createCheckoutSession_no_failure:
  assumes "ps \<noteq> []" and "\<forall>op. \<not> fails e op"
  shows "createCheckoutSession e uid \<lparr>products = Some ps, couponCode = cc\<rparr> w =
     (let total1 = spec_discounted (cart_total ps) (found_coupon uid cc w);
          w2 = gateway_after e uid cc ps w
      in (CheckoutOk (stripe_session_id e) (div100 total1),
          if ge total1 (Fin 20000)
          then w2\<lparr>coupons := findOneAndDelete (\<lambda>c. userId c = uid) (coupons w2)
                              @ [new_gift_coupon e uid]\<rparr>
          else w2))"
  using assms(2)
  by (simp add: createCheckoutSession_gift_step [OF assms(1) no_failure_reaches_gift_step [OF assms(2)]]
      createNewCoupon_no_failure Let_def)

lemma createCheckoutSession_response:
  assumes "ps \<noteq> []"
  shows "fst (createCheckoutSession e uid \<lparr>products = Some ps, couponCode = cc\<rparr> w) = CheckoutError \<or>
         fst (createCheckoutSession e uid \<lparr>products = Some ps, couponCode = cc\<rparr> w) =
           CheckoutOk (stripe_session_id e)
             (div100 (spec_discounted (cart_total ps) (found_coupon uid cc w)))"
proof (cases "reaches_gift_step e uid cc w")
  case True
  show ?thesis
    unfolding createCheckoutSession_gift_step [OF assms True]
    by (cases "createNewCoupon e uid (gateway_after e uid cc ps w)")
       (simp add: Let_def split: sum.splits)
next
  case False
  obtain p ps' where ps: "ps = p # ps'"
    using assms by (cases ps) auto
  have "fst (createCheckoutSession e uid \<lparr>products = Some ps, couponCode = cc\<rparr> w) = CheckoutError"
  proof (cases "truthy cc \<and> fails e CouponFindOne")
    case True
    then show ?thesis
      unfolding ps createCheckoutSession_def
      by (simp add: lineItems_loop_eq Let_def del: lineItems_loop.simps)
  next
    case a: False
    show ?thesis
    proof (cases "found_coupon uid cc w \<noteq> None \<and> fails e StripeCouponsCreate")
      case True
      with a show ?thesis
        unfolding ps createCheckoutSession_def found_coupon_def
        by (simp add: lineItems_loop_eq Let_def del: lineItems_loop.simps)
    next
      case b: False
      from a b False have "fails e StripeSessionsCreate"
        unfolding reaches_gift_step_def by blast
      with a b show ?thesis
        unfolding ps createCheckoutSession_def found_coupon_def
        by (simp add: lineItems_loop_eq Let_def del: lineItems_loop.simps)
    qed
  qed
  then show ?thesis ..
qed

subsection \<open>What reaches the gateway, and the totals\<close>

lemma sessions_created_append:
  "sessions_created (xs @ ys) = sessions_created xs @ sessions_created ys"
  by (induction xs rule: sessions_created.induct) simp_all

lemma gateway_after_sessions:
  "sessions_created (stripe (gateway_after e uid cc ps w)) =
     sessions_created (stripe w) @
       [checkout_request e uid cc ps (map lineItem ps) (found_coupon uid cc w)]"
  by (cases "found_coupon uid cc w") (simp_all add: gateway_after_def sessions_created_append)

lemma gateway_after_coupons: "coupons (gateway_after e uid cc ps w) = coupons w"
  by (cases "found_coupon uid cc w") (simp_all add: gateway_after_def)

subsection \<open>Gift issuance and the update of one document\<close>

lemma no_rows_of_user:
  "uid \<notin> set (map userId cs) \<Longrightarrow> filter (\<lambda>c. userId c = uid) cs = []"
  by (induction cs) auto

lemma findOneAndDelete_user_none:
  "distinct (map userId cs) \<Longrightarrow>
   filter (\<lambda>c. userId c = uid) (findOneAndDelete (\<lambda>c. userId c = uid) cs) = []"
proof (induction cs)
  case Nil
  show ?case by simp
next
  case (Cons c cs)
  show ?case
  proof (cases "userId c = uid")
    case True
    with Cons.prems have "uid \<notin> set (map userId cs)"
      by auto
    with True show ?thesis
      by (simp add: no_rows_of_user)
  next
    case False
    with Cons show ?thesis
      by simp
  qed
qed

lemma createNewCoupon_stripe: "stripe (snd (createNewCoupon e uid w)) = stripe w"
  by (simp add: createNewCoupon_def Let_def)


lemma createNewCoupon_failure:
  "fails e CouponFindOneAndDelete \<or> fails e CouponSave \<Longrightarrow>
   \<exists>err. fst (createNewCoupon e uid w) = Inl err"
  by (auto simp: createNewCoupon_def Let_def)



lemma findOneAndUpdate_map:
  "(\<And>c. f (u c) = f c) \<Longrightarrow> map f (findOneAndUpdate q u cs) = map f cs"
  by (induction cs) simp_all

lemma findOneAndUpdate_mset:
  "findOne q cs = Some c \<Longrightarrow>
   mset (findOneAndUpdate q u cs) + {#c#} = mset cs + {#u c#}"
  by (induction cs) (auto split: if_splits)

lemma findOne_Some: "findOne q cs = Some c \<Longrightarrow> c \<in> set cs \<and> q c"
  by (induction cs) (auto split: if_splits)

subsection \<open>The settlement of a paid session\<close>


subsection \<open>The store after a checkout, in every branch\<close>

lemma createCheckoutSession_invalid:
  "products body = None \<or> products body = Some [] \<Longrightarrow>
   createCheckoutSession e uid body w = (InvalidProducts, w)"
  by (auto simp: createCheckoutSession_def)

lemma createCheckoutSession_early_failure:
  assumes "ps \<noteq> []" and "\<not> reaches_gift_step e uid cc w"
  shows "\<exists>st. createCheckoutSession e uid \<lparr>products = Some ps, couponCode = cc\<rparr> w =
     (CheckoutError, w\<lparr>stripe := st\<rparr>)"
proof -
  obtain p ps' where ps: "ps = p # ps'"
    using assms(1) by (cases ps) auto
  show ?thesis
  proof (cases "truthy cc \<and> fails e CouponFindOne")
    case True
    then have "createCheckoutSession e uid \<lparr>products = Some ps, couponCode = cc\<rparr> w =
        (CheckoutError, w\<lparr>stripe := stripe w\<rparr>)"
      unfolding ps createCheckoutSession_def
      by (simp add: lineItems_loop_eq Let_def del: lineItems_loop.simps)
    then show ?thesis ..
  next
    case a: False
    show ?thesis
    proof (cases "found_coupon uid cc w \<noteq> None \<and> fails e StripeCouponsCreate")
      case True
      with a have "createCheckoutSession e uid \<lparr>products = Some ps, couponCode = cc\<rparr> w =
          (CheckoutError, w\<lparr>stripe := stripe w\<rparr>)"
        unfolding ps createCheckoutSession_def found_coupon_def
        by (simp add: lineItems_loop_eq Let_def del: lineItems_loop.simps)
      then show ?thesis ..
    next
      case b: False
      from a b assms(2) have c: "fails e StripeSessionsCreate"
        unfolding reaches_gift_step_def by blast
      from a have a': "(truthy cc \<and> fails e CouponFindOne) = False"
        by simp
      show ?thesis
      proof (cases "found_coupon uid cc w")
        case None
        then have cpn: "(if truthy cc
            then findOne (\<lambda>c. code c = or_empty cc \<and> userId c = uid \<and> isActive c) (coupons w)
            else None) = None"
          by (simp add: found_coupon_def)
        have "createCheckoutSession e uid \<lparr>products = Some ps, couponCode = cc\<rparr> w =
            (CheckoutError, w\<lparr>stripe := stripe w\<rparr>)"
          unfolding ps createCheckoutSession_def
          by (simp add: lineItems_loop_eq cpn a' c Let_def del: lineItems_loop.simps)
        then show ?thesis ..
      next
        case (Some d)
        then have cpn: "(if truthy cc
            then findOne (\<lambda>c. code c = or_empty cc \<and> userId c = uid \<and> isActive c) (coupons w)
            else None) = Some d"
          by (simp add: found_coupon_def)
        from b Some have b': "fails e StripeCouponsCreate = False"
          by simp
        have "createCheckoutSession e uid \<lparr>products = Some ps, couponCode = cc\<rparr> w =
            (CheckoutError, w\<lparr>stripe := stripe w @ [CouponsCreate (discountPercentage d)]\<rparr>)"
          unfolding ps createCheckoutSession_def
          by (simp add: lineItems_loop_eq cpn a' b' c Let_def del: lineItems_loop.simps)
        then show ?thesis ..
      qed
    qed
  qed
qed

lemma gateway_after_world:
  "gateway_after e uid cc ps w = w\<lparr>stripe := stripe (gateway_after e uid cc ps w)\<rparr>"
  by (cases "found_coupon uid cc w") (simp_all add: gateway_after_def)

lemma createCheckoutSession_world:
  "\<exists>st. snd (createCheckoutSession e uid body w) = w\<lparr>stripe := st\<rparr> \<or>
        snd (createCheckoutSession e uid body w) = snd (createNewCoupon e uid (w\<lparr>stripe := st\<rparr>))"
proof (cases "products body = None \<or> products body = Some []")
  case True
  then have "snd (createCheckoutSession e uid body w) = w\<lparr>stripe := stripe w\<rparr>"
    by (simp add: createCheckoutSession_invalid)
  then show ?thesis by blast
next
  case False
  then obtain ps where ps: "products body = Some ps" "ps \<noteq> []"
    by auto
  then have body: "body = \<lparr>products = Some ps, couponCode = couponCode body\<rparr>"
    by simp
  let ?cc = "couponCode body"
  show ?thesis
  proof (cases "reaches_gift_step e uid ?cc w")
    case False
    from createCheckoutSession_early_failure [OF ps(2) False]
    obtain st where "createCheckoutSession e uid \<lparr>products = Some ps, couponCode = ?cc\<rparr> w =
        (CheckoutError, w\<lparr>stripe := st\<rparr>)" ..
    with body have "snd (createCheckoutSession e uid body w) = w\<lparr>stripe := st\<rparr>"
      by simp
    then show ?thesis by blast
  next
    case True
    obtain st where st: "gateway_after e uid ?cc ps w = w\<lparr>stripe := st\<rparr>"
      using gateway_after_world [of e uid ?cc ps w] by blast
    note run = createCheckoutSession_gift_step [OF ps(2) True]
    show ?thesis
    proof (cases "ge (spec_discounted (cart_total ps) (found_coupon uid ?cc w)) (Fin 20000)")
      case False
      with run st have "createCheckoutSession e uid \<lparr>products = Some ps, couponCode = ?cc\<rparr> w =
          (CheckoutOk (stripe_session_id e)
            (div100 (spec_discounted (cart_total ps) (found_coupon uid ?cc w))), w\<lparr>stripe := st\<rparr>)"
        by (simp add: Let_def)
      with body have "snd (createCheckoutSession e uid body w) = w\<lparr>stripe := st\<rparr>"
        by simp
      then show ?thesis by blast
    next
      case True
      with run st have "snd (createCheckoutSession e uid \<lparr>products = Some ps, couponCode = ?cc\<rparr> w) =
          snd (createNewCoupon e uid (w\<lparr>stripe := st\<rparr>))"
        by (simp add: Let_def split: prod.split sum.split)
      with body have "snd (createCheckoutSession e uid body w) =
          snd (createNewCoupon e uid (w\<lparr>stripe := st\<rparr>))"
        by simp
      then show ?thesis by blast
    qed
  qed
qed

subsection \<open>One coupon row per user\<close>

text \<open>
  No handler adds a coupon row for a user without removing the user's row first, and
  the updates keep the owner of a row: a store with at most one row per user stays so.
\<close>

lemma findOneAndDelete_subset: "set (findOneAndDelete q cs) \<subseteq> set cs"
  by (induction cs) auto

lemma findOneAndDelete_distinct:
  "distinct (map f cs) \<Longrightarrow> distinct (map f (findOneAndDelete q cs))"
proof (induction cs)
  case Nil
  show ?case by simp
next
  case (Cons c cs)
  from findOneAndDelete_subset [of q cs]
  have "f ` set (findOneAndDelete q cs) \<subseteq> f ` set cs"
    by (rule image_mono)
  with Cons show ?case
    by auto
qed

lemma findOneAndDelete_user_absent:
  "distinct (map userId cs) \<Longrightarrow>
   uid \<notin> set (map userId (findOneAndDelete (\<lambda>c. userId c = uid) cs))"
  by (induction cs) auto

lemma createNewCoupon_distinct:
  assumes "distinct (map userId (coupons w))"
  shows "distinct (map userId (coupons (snd (createNewCoupon e uid w))))"
proof -
  let ?cs = "findOneAndDelete (\<lambda>c. userId c = uid) (coupons w)"
  have d: "distinct (map userId ?cs)"
    using assms by (rule findOneAndDelete_distinct)
  have a: "uid \<notin> set (map userId ?cs)"
    using assms by (rule findOneAndDelete_user_absent)
  have n: "userId (new_gift_coupon e uid) = uid"
    by (simp add: new_gift_coupon_def)
  show ?thesis
    using assms d a n by (simp add: createNewCoupon_def Let_def)
qed

lemma createCheckoutSession_distinct:
  assumes "distinct (map userId (coupons w))"
  shows "distinct (map userId (coupons (snd (createCheckoutSession e uid body w))))"
proof -
  obtain st where "snd (createCheckoutSession e uid body w) = w\<lparr>stripe := st\<rparr> \<or>
      snd (createCheckoutSession e uid body w) = snd (createNewCoupon e uid (w\<lparr>stripe := st\<rparr>))"
    using createCheckoutSession_world by blast
  moreover have "distinct (map userId (coupons (w\<lparr>stripe := st\<rparr>)))"
    using assms by simp
  ultimately show ?thesis
    using createNewCoupon_distinct [of "w\<lparr>stripe := st\<rparr>" e uid] by auto
qed


lemma checkoutSuccess_users:
  "map userId (coupons (snd (checkoutSuccess e sessionId w))) = map userId (coupons w)"
  by (simp add: checkoutSuccess_def Let_def findOneAndUpdate_map split: option.split)

lemma validateCoupon_users:
  "map userId (coupons (snd (validateCoupon e uid cd w))) = map userId (coupons w)"
  by (simp add: validateCoupon_def findOneAndUpdate_map split: option.split)

lemma handle_distinct:
  assumes "distinct (map userId (coupons w))"
  shows "distinct (map userId (coupons (snd (handle e r w))))"
proof (cases r)
  case (Checkout uid body)
  with assms show ?thesis
    by (simp add: createCheckoutSession_distinct)
next
  case (Success sessionId)
  with assms show ?thesis
    by (simp add: checkoutSuccess_users)
next
  case (GetCoupon uid)
  with assms show ?thesis
    by (simp add: getCoupon_def)
next
  case (ValidateCoupon uid cd)
  with assms show ?thesis
    by (simp add: validateCoupon_users)
qed

lemma run_distinct:
  "distinct (map userId (coupons w)) \<Longrightarrow> distinct (map userId (coupons (run evs w)))"
proof (induction evs arbitrary: w)
  case Nil
  then show ?case by simp
next
  case (Cons er evs)
  obtain e r where er: "er = (e, r)"
    by (cases er)
  from Cons.prems have "distinct (map userId (coupons (snd (handle e r w))))"
    by (rule handle_distinct)
  then show ?case
    unfolding er by (simp add: Cons.IH)
qed

lemma issue_distinct:
  "distinct (map userId (coupons w)) \<Longrightarrow> distinct (map userId (coupons (issue uid es w)))"
  by (induction es arbitrary: w) (simp_all add: createNewCoupon_distinct)

lemma issue_snoc:
  "issue uid (es @ [e]) w = snd (createNewCoupon e uid (issue uid es w))"
  by (induction es arbitrary: w) simp_all

lemma no_active_rows_of_user:
  "uid \<notin> set (map userId cs) \<Longrightarrow> filter (\<lambda>c. userId c = uid \<and> isActive c) cs = []"
  by (induction cs) auto

lemma rows_of_user_le_one:
  "distinct (map userId cs) \<Longrightarrow> length (filter (\<lambda>c. userId c = uid \<and> isActive c) cs) \<le> 1"
proof (induction cs)
  case Nil
  show ?case by simp
next
  case (Cons c cs)
  show ?case
  proof (cases "userId c = uid")
    case True
    with Cons.prems have "uid \<notin> set (map userId cs)"
      by auto
    then have "filter (\<lambda>c. userId c = uid \<and> isActive c) cs = []"
      by (rule no_active_rows_of_user)
    then show ?thesis
      by simp
  next
    case False
    with Cons show ?thesis
      by simp
  qed
qed

lemma createNewCoupon_active:
  assumes "distinct (map userId (coupons w))"
    and "\<not> fails e CouponFindOneAndDelete" and "\<not> fails e CouponSave"
  shows "active_coupons uid (snd (createNewCoupon e uid w)) = [new_gift_coupon e uid]"
proof -
  let ?cs = "findOneAndDelete (\<lambda>c. userId c = uid) (coupons w)"
  have "uid \<notin> set (map userId ?cs)"
    using assms(1) by (rule findOneAndDelete_user_absent)
  then have "filter (\<lambda>c. userId c = uid \<and> isActive c) ?cs = []"
    by (rule no_active_rows_of_user)
  then show ?thesis
    by (simp add: createNewCoupon_no_failure [OF assms(2,3)] active_coupons_def
        new_gift_coupon_def coupon_isActive_default_def)
qed

subsection \<open>One order per session under a unique index\<close>





subsection \<open>Inactive coupons stay inactive\<close>

text \<open>
  No handler sets the flag of a stored coupon to true: a coupon that is active after
  a sequence of requests was active before it or was issued as a gift by one of them.
\<close>

lemma findOne_weaker_None:
  assumes "findOne p cs = None" and "\<And>c. q c \<Longrightarrow> p c"
  shows "findOne q cs = None"
  using assms(1)
proof (induction cs)
  case Nil
  show ?case by simp
next
  case (Cons d ds)
  from Cons.prems have "\<not> p d" and "findOne p ds = None"
    by (simp_all split: if_splits)
  moreover from \<open>\<not> p d\<close> have "\<not> q d"
    using assms(2) by blast
  ultimately show ?case
    by (simp add: Cons.IH)
qed

lemma no_active_of_absent_user:
  "uid \<notin> set (map userId cs) \<Longrightarrow> findOne (\<lambda>c. userId c = uid \<and> isActive c) cs = None"
  by (induction cs) auto

lemma deactivated_user_has_no_active:
  assumes "\<And>c. q c \<Longrightarrow> userId c = uid"
  shows "distinct (map userId cs) \<Longrightarrow> findOne q cs = Some c \<Longrightarrow>
         findOne (\<lambda>c. userId c = uid \<and> isActive c)
           (findOneAndUpdate q (\<lambda>c. c\<lparr>isActive := False\<rparr>) cs) = None"
proof (induction cs)
  case Nil
  then show ?case by simp
next
  case (Cons d ds)
  from Cons.prems(1) have dist: "userId d \<notin> set (map userId ds)" "distinct (map userId ds)"
    by simp_all
  show ?case
  proof (cases "q d")
    case True
    then have "userId d = uid"
      by (rule assms)
    with dist(1) have "uid \<notin> set (map userId ds)"
      by simp
    then have "findOne (\<lambda>c. userId c = uid \<and> isActive c) ds = None"
      by (rule no_active_of_absent_user)
    with True show ?thesis
      by simp
  next
    case False
    with Cons.prems(2) have f: "findOne q ds = Some c"
      by simp
    then have "c \<in> set ds" and "q c"
      by (simp_all add: findOne_Some)
    from \<open>q c\<close> have "userId c = uid"
      by (rule assms)
    with \<open>c \<in> set ds\<close> have "uid \<in> set (map userId ds)"
      by (simp add: image_iff) blast
    with dist(1) have "userId d \<noteq> uid"
      by blast
    moreover have "findOne (\<lambda>c. userId c = uid \<and> isActive c)
        (findOneAndUpdate q (\<lambda>c. c\<lparr>isActive := False\<rparr>) ds) = None"
      using dist(2) f by (rule Cons.IH)
    ultimately show ?thesis
      using False by simp
  qed
qed

lemma findOneAndUpdate_active:
  "c \<in> set (findOneAndUpdate q (\<lambda>c. c\<lparr>isActive := False\<rparr>) cs) \<Longrightarrow> isActive c \<Longrightarrow> c \<in> set cs"
  by (induction cs) (auto split: if_splits)

lemma createNewCoupon_rows:
  assumes "c \<in> set (coupons (snd (createNewCoupon e uid w)))"
  shows "c \<in> set (coupons w) \<or> c = new_gift_coupon e uid"
proof -
  let ?cs = "findOneAndDelete (\<lambda>c. userId c = uid) (coupons w)"
  have "set (coupons (snd (createNewCoupon e uid w))) \<subseteq> set (coupons w) \<union> {new_gift_coupon e uid}"
    using findOneAndDelete_subset [of "\<lambda>c. userId c = uid" "coupons w"]
    by (simp add: createNewCoupon_def Let_def subset_insertI2)
  with assms show ?thesis
    by blast
qed

lemma createCheckoutSession_rows:
  assumes "c \<in> set (coupons (snd (createCheckoutSession e uid body w)))"
  shows "c \<in> set (coupons w) \<or> c = new_gift_coupon e uid"
proof -
  obtain st where "snd (createCheckoutSession e uid body w) = w\<lparr>stripe := st\<rparr> \<or>
      snd (createCheckoutSession e uid body w) = snd (createNewCoupon e uid (w\<lparr>stripe := st\<rparr>))"
    using createCheckoutSession_world by blast
  with assms show ?thesis
    using createNewCoupon_rows [of c e uid "w\<lparr>stripe := st\<rparr>"] by auto
qed

lemma checkoutSuccess_coupons:
  "coupons (snd (checkoutSuccess e sessionId w)) = coupons w \<or>
   (\<exists>q. coupons (snd (checkoutSuccess e sessionId w)) =
      findOneAndUpdate q (\<lambda>c. c\<lparr>isActive := False\<rparr>) (coupons w))"
proof (cases "stripe_retrieve e sessionId")
  case None
  then show ?thesis
    by (simp add: checkoutSuccess_def)
next
  case (Some s)
  let ?q = "\<lambda>c. code c = md_couponCode (metadata s) \<and> userId c = md_userId (metadata s)"
  have "coupons (snd (checkoutSuccess e sessionId w)) = coupons w \<or>
      coupons (snd (checkoutSuccess e sessionId w)) =
        findOneAndUpdate ?q (\<lambda>c. c\<lparr>isActive := False\<rparr>) (coupons w)"
    using Some by (simp add: checkoutSuccess_def Let_def split: option.split)
  then show ?thesis
    by blast
qed

lemma checkoutSuccess_active:
  assumes "c \<in> set (coupons (snd (checkoutSuccess e sessionId w)))" and "isActive c"
  shows "c \<in> set (coupons w)"
proof -
  from checkoutSuccess_coupons [of e sessionId w]
  consider "coupons (snd (checkoutSuccess e sessionId w)) = coupons w"
    | q where "coupons (snd (checkoutSuccess e sessionId w)) =
        findOneAndUpdate q (\<lambda>c. c\<lparr>isActive := False\<rparr>) (coupons w)"
    by blast
  then show ?thesis
  proof cases
    case 1
    with assms(1) show ?thesis
      by simp
  next
    case 2
    with assms(1) have "c \<in> set (findOneAndUpdate q (\<lambda>c. c\<lparr>isActive := False\<rparr>) (coupons w))"
      by simp
    then show ?thesis
      using assms(2) by (rule findOneAndUpdate_active)
  qed
qed

lemma validateCoupon_coupons:
  "coupons (snd (validateCoupon e uid cd w)) = coupons w \<or>
   coupons (snd (validateCoupon e uid cd w)) =
     findOneAndUpdate (\<lambda>c. code c = cd \<and> userId c = uid \<and> isActive c)
       (\<lambda>c. c\<lparr>isActive := False\<rparr>) (coupons w)"
  by (simp add: validateCoupon_def split: option.split)

lemma validateCoupon_active:
  assumes "c \<in> set (coupons (snd (validateCoupon e uid cd w)))" and "isActive c"
  shows "c \<in> set (coupons w)"
proof -
  let ?q = "\<lambda>c. code c = cd \<and> userId c = uid \<and> isActive c"
  from validateCoupon_coupons [of e uid cd w]
  consider "coupons (snd (validateCoupon e uid cd w)) = coupons w"
    | "coupons (snd (validateCoupon e uid cd w)) =
        findOneAndUpdate ?q (\<lambda>c. c\<lparr>isActive := False\<rparr>) (coupons w)"
    by blast
  then show ?thesis
  proof cases
    case 1
    with assms(1) show ?thesis
      by simp
  next
    case 2
    with assms(1) have "c \<in> set (findOneAndUpdate ?q (\<lambda>c. c\<lparr>isActive := False\<rparr>) (coupons w))"
      by simp
    then show ?thesis
      using assms(2) by (rule findOneAndUpdate_active)
  qed
qed

lemma handle_active:
  assumes "c \<in> set (coupons (snd (handle e r w)))" and "isActive c"
  shows "c \<in> set (coupons w) \<or> c = new_gift_coupon e (userId c)"
proof (cases r)
  case (Checkout uid body)
  with assms(1) have "c \<in> set (coupons w) \<or> c = new_gift_coupon e uid"
    by (simp add: createCheckoutSession_rows)
  moreover have "userId (new_gift_coupon e uid) = uid"
    by (simp add: new_gift_coupon_def)
  ultimately show ?thesis
    by auto
next
  case (Success sessionId)
  with assms show ?thesis
    by (simp add: checkoutSuccess_active)
next
  case (GetCoupon uid)
  with assms show ?thesis
    by (simp add: getCoupon_def split: if_splits)
next
  case (ValidateCoupon uid cd)
  with assms show ?thesis
    by (simp add: validateCoupon_active)
qed

lemma run_active:
  "c \<in> set (coupons (run evs w)) \<Longrightarrow> isActive c \<Longrightarrow>
   c \<in> set (coupons w) \<or> (\<exists>er\<in>set evs. c = new_gift_coupon (fst er) (userId c))"
proof (induction evs arbitrary: w)
  case Nil
  then show ?case by simp
next
  case (Cons er evs)
  obtain e r where er: "er = (e, r)"
    by (cases er)
  from Cons.prems have "c \<in> set (coupons (run evs (snd (handle e r w))))"
    unfolding er by simp
  with Cons.IH Cons.prems(2)
  have "c \<in> set (coupons (snd (handle e r w))) \<or>
      (\<exists>er\<in>set evs. c = new_gift_coupon (fst er) (userId c))"
    by blast
  then show ?case
  proof
    assume "c \<in> set (coupons (snd (handle e r w)))"
    then have "c \<in> set (coupons w) \<or> c = new_gift_coupon e (userId c)"
      using Cons.prems(2) by (rule handle_active)
    then show ?thesis
      unfolding er by auto
  next
    assume "\<exists>er\<in>set evs. c = new_gift_coupon (fst er) (userId c)"
    then show ?thesis
      by auto
  qed
qed

subsection \<open>Expiry on validation\<close>

lemma findOne_None_filter: "findOne q cs = None \<Longrightarrow> filter q cs = []"
  by (induction cs) (simp_all split: if_splits)

lemma validateCoupon_expired_eq:
  assumes "\<not> fails e CouponFindOne" and "\<not> fails e CouponSave"
    and "findOne (\<lambda>c. code c = cd \<and> userId c = uid \<and> isActive c) (coupons w) = Some c"
    and "expirationDate c < now e"
  shows "validateCoupon e uid cd w =
     (CouponExpired,
      w\<lparr>coupons := findOneAndUpdate (\<lambda>c. code c = cd \<and> userId c = uid \<and> isActive c)
                      (\<lambda>c. c\<lparr>isActive := False\<rparr>) (coupons w)\<rparr>)"
  using assms by (simp add: validateCoupon_def)

lemma validateCoupon_expired_no_active:
  assumes "\<not> fails e CouponFindOne" and "\<not> fails e CouponSave"
    and "findOne (\<lambda>c. code c = cd \<and> userId c = uid \<and> isActive c) (coupons w) = Some c"
    and "expirationDate c < now e"
    and "distinct (map userId (coupons w))"
  shows "findOne (\<lambda>c. userId c = uid \<and> isActive c)
           (coupons (snd (validateCoupon e uid cd w))) = None"
proof -
  have "findOne (\<lambda>c. userId c = uid \<and> isActive c)
      (findOneAndUpdate (\<lambda>c. code c = cd \<and> userId c = uid \<and> isActive c)
         (\<lambda>c. c\<lparr>isActive := False\<rparr>) (coupons w)) = None"
    using assms(5,3) by (intro deactivated_user_has_no_active) simp_all
  then show ?thesis
    by (simp add: validateCoupon_expired_eq [OF assms(1-4)])
qed

subsection \<open>Items with a falsy quantity\<close>








subsection \<open>A second settlement under the unique index\<close>



subsection \<open>Sample values\<close>

text \<open>The arithmetic on values whose doubles are well known.\<close>

lemma double_samples:
  "fadd (JSON_number (1 / 10)) (JSON_number (2 / 10)) = Fin (1351079888211149 / 4503599627370496)"
  "fmul (JSON_number (1005 / 1000)) (Fin 100) = Fin (7072058789855231 / 70368744177664)"
  "Math_round (fmul (JSON_number (1005 / 1000)) (Fin 100)) = Fin 100"
  "Math_round (fmul (JSON_number (1999 / 100)) (Fin 100)) = Fin 1999"
  "Math_round (div100 (fmul (Fin 250) (JSON_number (646 / 10)))) = Fin 161"
  "fadd (Fin (10 ^ 16)) (Fin 1) = Fin (10 ^ 16)"
  "fadd (Fin 2) (Fin (10 ^ 16)) = Fin (10 ^ 16 + 2)"
  by code_simp+

lemma checkout_samples:
  "cart_total [mk_product ''a'' (JSON_number (1005 / 1000)) (Fin 1)] = Fin 100"
  "cart_total [mk_product ''a'' (JSON_number (1005 / 1000)) (Fin 1),
               mk_product ''b'' (Fin 300) (Fin 1)] = Fin 30100"
  "cart_total [mk_product ''a'' (JSON_number (1005 / 1000)) (Fin 1),
               mk_product ''b'' (Fin 10) (Fin 0)] = Fin 100"
  "spec_discounted (Fin 250) (Some (mk_coupon ''u1'' ''C'' (JSON_number (646 / 10)) 0 True)) = Fin 89"
  by code_simp+

section \<open>Claims\<close>

text \<open>
  C1, as the code has it. For a non-empty products list, when no call rejects, the
  checkout answers with the total divided by 100, where the total is the sum of
  \<open>round(price * 100) * quantity\<close> over the items, added in the order of the list in
  double arithmetic, less \<open>round(T * d / 100)\<close> taken once from that sum \<open>T\<close> when an
  active coupon of the user with the given code is found. In any environment the
  answer is either the error of the \<open>catch\<close> block or carries that total. When the
  cents and the quantities are whole numbers whose absolute products add up to at most
  \<open>2 ^ 53\<close>, the sum is the exact one and the answer is the same for every reordering
  of the products.
\<close>

theorem createCheckoutSession_total:
  assumes "ps \<noteq> []" and "\<forall>op. \<not> fails e op"
  shows "fst (createCheckoutSession e uid \<lparr>products = Some ps, couponCode = cc\<rparr> w) =
           CheckoutOk (stripe_session_id e)
             (div100 (spec_discounted (cart_total ps) (found_coupon uid cc w))) \<and>
         (whole_cart ps \<longrightarrow>
            cart_total ps = Fin (of_int (exact_total ps)) \<and>
            (\<forall>ps'. mset ps' = mset ps \<longrightarrow>
               fst (createCheckoutSession e uid \<lparr>products = Some ps', couponCode = cc\<rparr> w) =
               fst (createCheckoutSession e uid \<lparr>products = Some ps, couponCode = cc\<rparr> w))) \<and>
         (\<forall>e'. fst (createCheckoutSession e' uid \<lparr>products = Some ps, couponCode = cc\<rparr> w) = CheckoutError \<or>
            fst (createCheckoutSession e' uid \<lparr>products = Some ps, couponCode = cc\<rparr> w) =
              CheckoutOk (stripe_session_id e')
                (div100 (spec_discounted (cart_total ps) (found_coupon uid cc w))))"
proof (intro conjI allI impI)
  show ok: "fst (createCheckoutSession e uid \<lparr>products = Some ps, couponCode = cc\<rparr> w) =
      CheckoutOk (stripe_session_id e)
        (div100 (spec_discounted (cart_total ps) (found_coupon uid cc w)))"
    by (simp add: createCheckoutSession_no_failure [OF assms] Let_def)
  {
    assume whole: "whole_cart ps"
    then show "cart_total ps = Fin (of_int (exact_total ps))"
      by (rule cart_total_exact)
    fix ps' :: "product list"
    assume perm: "mset ps' = mset ps"
    with assms(1) have "ps' \<noteq> []"
      by (cases ps') simp_all
    then have "fst (createCheckoutSession e uid \<lparr>products = Some ps', couponCode = cc\<rparr> w) =
        CheckoutOk (stripe_session_id e)
          (div100 (spec_discounted (cart_total ps') (found_coupon uid cc w)))"
      by (simp add: createCheckoutSession_no_failure [OF _ assms(2)] Let_def)
    with ok
    show "fst (createCheckoutSession e uid \<lparr>products = Some ps', couponCode = cc\<rparr> w) =
        fst (createCheckoutSession e uid \<lparr>products = Some ps, couponCode = cc\<rparr> w)"
      by (simp add: cart_total_mset [OF perm whole])
  }
  fix e'
  show "fst (createCheckoutSession e' uid \<lparr>products = Some ps, couponCode = cc\<rparr> w) = CheckoutError \<or>
      fst (createCheckoutSession e' uid \<lparr>products = Some ps, couponCode = cc\<rparr> w) =
        CheckoutOk (stripe_session_id e')
          (div100 (spec_discounted (cart_total ps) (found_coupon uid cc w)))"
    by (rule createCheckoutSession_response [OF assms(1)])
qed

text \<open>
  C1, as the spec has it, fails beyond \<open>2 ^ 53\<close>: one item at 1e14 and two at 0.01 give
  1e16 cents, the two small amounts being lost one by one, while the same items with
  the large one last give 1e16 + 2 cents.
\<close>

theorem createCheckoutSession_order_counterexample:
  "mset [mk_product ''b'' (JSON_number (1 / 100)) (Fin 1),
         mk_product ''b'' (JSON_number (1 / 100)) (Fin 1),
         mk_product ''a'' (Fin (10 ^ 14)) (Fin 1)] =
   mset [mk_product ''a'' (Fin (10 ^ 14)) (Fin 1),
         mk_product ''b'' (JSON_number (1 / 100)) (Fin 1),
         mk_product ''b'' (JSON_number (1 / 100)) (Fin 1)] \<and>
   fst (createCheckoutSession (env_ok 0 no_sessions) ''u1''
         \<lparr>products = Some [mk_product ''a'' (Fin (10 ^ 14)) (Fin 1),
                            mk_product ''b'' (JSON_number (1 / 100)) (Fin 1),
                            mk_product ''b'' (JSON_number (1 / 100)) (Fin 1)],
          couponCode = None\<rparr> world0) = CheckoutOk ''cs_1'' (Fin (10 ^ 14)) \<and>
   fst (createCheckoutSession (env_ok 0 no_sessions) ''u1''
         \<lparr>products = Some [mk_product ''b'' (JSON_number (1 / 100)) (Fin 1),
                            mk_product ''b'' (JSON_number (1 / 100)) (Fin 1),
                            mk_product ''a'' (Fin (10 ^ 14)) (Fin 1)],
          couponCode = None\<rparr> world0) = CheckoutOk ''cs_1'' (Fin (6400000000000001 / 64))"
proof -
  have "mset [mk_product ''b'' (JSON_number (1 / 100)) (Fin 1),
         mk_product ''b'' (JSON_number (1 / 100)) (Fin 1),
         mk_product ''a'' (Fin (10 ^ 14)) (Fin 1)] =
   mset [mk_product ''a'' (Fin (10 ^ 14)) (Fin 1),
         mk_product ''b'' (JSON_number (1 / 100)) (Fin 1),
         mk_product ''b'' (JSON_number (1 / 100)) (Fin 1)]"
    by simp
  moreover have "fst (createCheckoutSession (env_ok 0 no_sessions) ''u1''
         \<lparr>products = Some [mk_product ''a'' (Fin (10 ^ 14)) (Fin 1),
                            mk_product ''b'' (JSON_number (1 / 100)) (Fin 1),
                            mk_product ''b'' (JSON_number (1 / 100)) (Fin 1)],
          couponCode = None\<rparr> world0) = CheckoutOk ''cs_1'' (Fin (10 ^ 14))"
    by code_simp
  moreover have "fst (createCheckoutSession (env_ok 0 no_sessions) ''u1''
         \<lparr>products = Some [mk_product ''b'' (JSON_number (1 / 100)) (Fin 1),
                            mk_product ''b'' (JSON_number (1 / 100)) (Fin 1),
                            mk_product ''a'' (Fin (10 ^ 14)) (Fin 1)],
          couponCode = None\<rparr> world0) = CheckoutOk ''cs_1'' (Fin (6400000000000001 / 64))"
    by code_simp
  ultimately show ?thesis
    by (simp only: simp_thms)
qed

text \<open>
  The spec's scenario: 19.99 twice and 5.00 once with a 10 percent coupon give
  4498 - 450 = 4048 cents, in either order; the answer is the double next to 40.48.
\<close>

theorem createCheckoutSession_total_witness:
  "[mk_product ''a'' (JSON_number (1999 / 100)) (Fin 2), mk_product ''b'' (Fin 5) (Fin 1)] \<noteq> [] \<and>
   (\<forall>op. \<not> fails (env_ok 0 no_sessions) op) \<and>
   fst (createCheckoutSession (env_ok 0 no_sessions) ''u1''
         \<lparr>products = Some [mk_product ''a'' (JSON_number (1999 / 100)) (Fin 2),
                            mk_product ''b'' (Fin 5) (Fin 1)],
          couponCode = Some ''GIFT10''\<rparr>
         (world0\<lparr>coupons := [mk_coupon ''u1'' ''GIFT10'' (Fin 10) 1000 True]\<rparr>)) =
     CheckoutOk ''cs_1'' (JSON_number (4048 / 100)) \<and>
   whole_cart [mk_product ''a'' (JSON_number (1999 / 100)) (Fin 2), mk_product ''b'' (Fin 5) (Fin 1)] \<and>
   cart_total [mk_product ''a'' (JSON_number (1999 / 100)) (Fin 2), mk_product ''b'' (Fin 5) (Fin 1)] =
     Fin 4498 \<and>
   mset [mk_product ''b'' (Fin 5) (Fin 1), mk_product ''a'' (JSON_number (1999 / 100)) (Fin 2)] =
     mset [mk_product ''a'' (JSON_number (1999 / 100)) (Fin 2), mk_product ''b'' (Fin 5) (Fin 1)] \<and>
   fst (createCheckoutSession (env_ok 0 no_sessions) ''u1''
         \<lparr>products = Some [mk_product ''b'' (Fin 5) (Fin 1),
                            mk_product ''a'' (JSON_number (1999 / 100)) (Fin 2)],
          couponCode = Some ''GIFT10''\<rparr>
         (world0\<lparr>coupons := [mk_coupon ''u1'' ''GIFT10'' (Fin 10) 1000 True]\<rparr>)) =
     CheckoutOk ''cs_1'' (JSON_number (4048 / 100))"
proof -
  let ?ps = "[mk_product ''a'' (JSON_number (1999 / 100)) (Fin 2), mk_product ''b'' (Fin 5) (Fin 1)]"
  let ?e = "env_ok 0 no_sessions"
  let ?w = "world0\<lparr>coupons := [mk_coupon ''u1'' ''GIFT10'' (Fin 10) 1000 True]\<rparr>"
  have h1: "?ps \<noteq> []"
    by simp
  have h2: "\<forall>op. \<not> fails ?e op"
    by (simp add: env_ok_def)
  have h3: "whole_cart ?ps"
    by code_simp
  have t: "div100 (spec_discounted (cart_total ?ps) (found_coupon ''u1'' (Some ''GIFT10'') ?w)) =
      JSON_number (4048 / 100)"
    by code_simp
  have x: "Fin (of_int (exact_total ?ps)) = Fin 4498"
    by code_simp
  have s: "stripe_session_id ?e = ''cs_1''"
    by (simp add: env_ok_def)
  have m: "mset [mk_product ''b'' (Fin 5) (Fin 1), mk_product ''a'' (JSON_number (1999 / 100)) (Fin 2)] =
      mset ?ps"
    by simp
  note main = createCheckoutSession_total [OF h1 h2, of "''u1''" "Some ''GIFT10''" ?w]
  from main have a: "fst (createCheckoutSession ?e ''u1''
      \<lparr>products = Some ?ps, couponCode = Some ''GIFT10''\<rparr> ?w) =
      CheckoutOk ''cs_1'' (JSON_number (4048 / 100))"
    by (simp only: t s)
  from main h3 have "cart_total ?ps = Fin (of_int (exact_total ?ps))"
    by blast
  then have c: "cart_total ?ps = Fin 4498"
    by (simp only: x)
  from main h3 m have "fst (createCheckoutSession ?e ''u1''
      \<lparr>products = Some [mk_product ''b'' (Fin 5) (Fin 1),
                         mk_product ''a'' (JSON_number (1999 / 100)) (Fin 2)],
       couponCode = Some ''GIFT10''\<rparr> ?w) =
      fst (createCheckoutSession ?e ''u1'' \<lparr>products = Some ?ps, couponCode = Some ''GIFT10''\<rparr> ?w)"
    by blast
  then have b: "fst (createCheckoutSession ?e ''u1''
      \<lparr>products = Some [mk_product ''b'' (Fin 5) (Fin 1),
                         mk_product ''a'' (JSON_number (1999 / 100)) (Fin 2)],
       couponCode = Some ''GIFT10''\<rparr> ?w) = CheckoutOk ''cs_1'' (JSON_number (4048 / 100))"
    by (simp only: a)
  show ?thesis
    using h1 h2 a h3 c m b by (simp only: simp_thms)
qed




text \<open>
  C8. When no call rejects, a checkout whose total after the discount is at least
  20000 replaces the user's coupon: the first coupon row of the user is deleted and
  one gift coupon is appended, for the same user, active, with 10 percent and an
  expiration 30 days after the clock; with at most one coupon row per user, the gift
  coupon is then the user's only row. A checkout whose total is not at least 20000
  leaves the coupons as they were. The total is the one the handler computes, in
  double arithmetic.
\<close>

theorem gift_coupon_at_threshold:
  assumes "ps \<noteq> []" and "\<forall>op. \<not> fails e op"
  shows "fst (createCheckoutSession e uid \<lparr>products = Some ps, couponCode = cc\<rparr> w) =
           CheckoutOk (stripe_session_id e)
             (div100 (spec_discounted (cart_total ps) (found_coupon uid cc w))) \<and>
         (ge (spec_discounted (cart_total ps) (found_coupon uid cc w)) (Fin 20000) \<longrightarrow>
            coupons (snd (createCheckoutSession e uid \<lparr>products = Some ps, couponCode = cc\<rparr> w)) =
              findOneAndDelete (\<lambda>c. userId c = uid) (coupons w) @ [new_gift_coupon e uid] \<and>
            (distinct (map userId (coupons w)) \<longrightarrow>
               filter (\<lambda>c. userId c = uid)
                 (coupons (snd (createCheckoutSession e uid
                    \<lparr>products = Some ps, couponCode = cc\<rparr> w))) = [new_gift_coupon e uid])) \<and>
         (\<not> ge (spec_discounted (cart_total ps) (found_coupon uid cc w)) (Fin 20000) \<longrightarrow>
            coupons (snd (createCheckoutSession e uid \<lparr>products = Some ps, couponCode = cc\<rparr> w)) =
              coupons w) \<and>
         userId (new_gift_coupon e uid) = uid \<and>
         discountPercentage (new_gift_coupon e uid) = Fin 10 \<and>
         expirationDate (new_gift_coupon e uid) = now e + 30 * 24 * 60 * 60 * 1000 \<and>
         isActive (new_gift_coupon e uid)"
proof -
  note run = createCheckoutSession_no_failure [OF assms, of uid cc w]
  have gift: "userId (new_gift_coupon e uid) = uid"
    "discountPercentage (new_gift_coupon e uid) = Fin 10"
    "expirationDate (new_gift_coupon e uid) = now e + 30 * 24 * 60 * 60 * 1000"
    "isActive (new_gift_coupon e uid)"
    by (simp_all add: new_gift_coupon_def coupon_isActive_default_def)
  have r: "fst (createCheckoutSession e uid \<lparr>products = Some ps, couponCode = cc\<rparr> w) =
      CheckoutOk (stripe_session_id e)
        (div100 (spec_discounted (cart_total ps) (found_coupon uid cc w)))"
    by (simp add: run Let_def)
  have below: "coupons (snd (createCheckoutSession e uid
      \<lparr>products = Some ps, couponCode = cc\<rparr> w)) = coupons w"
    if "\<not> ge (spec_discounted (cart_total ps) (found_coupon uid cc w)) (Fin 20000)"
    using that by (simp add: run Let_def gateway_after_coupons)
  have above: "coupons (snd (createCheckoutSession e uid
      \<lparr>products = Some ps, couponCode = cc\<rparr> w)) =
      findOneAndDelete (\<lambda>c. userId c = uid) (coupons w) @ [new_gift_coupon e uid]"
    if "ge (spec_discounted (cart_total ps) (found_coupon uid cc w)) (Fin 20000)"
    using that by (simp add: run Let_def gateway_after_coupons)
  have only: "filter (\<lambda>c. userId c = uid)
      (findOneAndDelete (\<lambda>c. userId c = uid) (coupons w) @ [new_gift_coupon e uid]) =
      [new_gift_coupon e uid]"
    if "distinct (map userId (coupons w))"
    using that by (simp add: findOneAndDelete_user_none gift(1))
  show ?thesis
    using r below above only gift by simp
qed


text \<open>
  A total of exactly 20000 replaces the user's old coupon by the gift coupon. The
  cart of 1.005 and 198.99 comes to 100 + 19899 = 19999 cents, since 1.005 * 100 is
  100.49999999999999 in doubles, and keeps the old coupon.
\<close>

theorem gift_coupon_at_threshold_witness:
  "[mk_product ''a'' (Fin 100) (Fin 2)] \<noteq> [] \<and>
   [mk_product ''a'' (JSON_number (1005 / 1000)) (Fin 1),
      mk_product ''b'' (JSON_number (19899 / 100)) (Fin 1)] \<noteq> [] \<and>
   (\<forall>op. \<not> fails (env_ok 7 no_sessions) op) \<and>
   spec_discounted (cart_total [mk_product ''a'' (Fin 100) (Fin 2)])
     (found_coupon ''u1'' None (world0\<lparr>coupons := [mk_coupon ''u1'' ''OLD'' (Fin 5) 9 True]\<rparr>)) = Fin 20000 \<and>
   ge (Fin 20000) (Fin 20000) \<and>
   distinct (map userId (coupons (world0\<lparr>coupons := [mk_coupon ''u1'' ''OLD'' (Fin 5) 9 True]\<rparr>))) \<and>
   filter (\<lambda>c. userId c = ''u1'')
     (coupons (snd (createCheckoutSession (env_ok 7 no_sessions) ''u1''
        \<lparr>products = Some [mk_product ''a'' (Fin 100) (Fin 2)], couponCode = None\<rparr>
        (world0\<lparr>coupons := [mk_coupon ''u1'' ''OLD'' (Fin 5) 9 True]\<rparr>)))) =
     [mk_coupon ''u1'' ''GIFTA1B2C3'' (Fin 10) 2592000007 True] \<and>
   spec_discounted (cart_total [mk_product ''a'' (JSON_number (1005 / 1000)) (Fin 1),
      mk_product ''b'' (JSON_number (19899 / 100)) (Fin 1)])
     (found_coupon ''u1'' None (world0\<lparr>coupons := [mk_coupon ''u1'' ''OLD'' (Fin 5) 9 True]\<rparr>)) = Fin 19999 \<and>
   \<not> ge (Fin 19999) (Fin 20000) \<and>
   coupons (snd (createCheckoutSession (env_ok 7 no_sessions) ''u1''
       \<lparr>products = Some [mk_product ''a'' (Fin 100) (Fin 2)], couponCode = None\<rparr>
       (world0\<lparr>coupons := [mk_coupon ''u1'' ''OLD'' (Fin 5) 9 True]\<rparr>))) =
     [mk_coupon ''u1'' ''GIFTA1B2C3'' (Fin 10) 2592000007 True] \<and>
   coupons (snd (createCheckoutSession (env_ok 7 no_sessions) ''u1''
       \<lparr>products = Some [mk_product ''a'' (JSON_number (1005 / 1000)) (Fin 1),
      mk_product ''b'' (JSON_number (19899 / 100)) (Fin 1)], couponCode = None\<rparr>
       (world0\<lparr>coupons := [mk_coupon ''u1'' ''OLD'' (Fin 5) 9 True]\<rparr>))) =
     [mk_coupon ''u1'' ''OLD'' (Fin 5) 9 True]"
proof -
  let ?e = "env_ok 7 no_sessions"
  let ?w = "world0\<lparr>coupons := [mk_coupon ''u1'' ''OLD'' (Fin 5) 9 True]\<rparr>"
  let ?ps = "[mk_product ''a'' (Fin 100) (Fin 2)]"
  let ?qs = "[mk_product ''a'' (JSON_number (1005 / 1000)) (Fin 1),
      mk_product ''b'' (JSON_number (19899 / 100)) (Fin 1)]"
  have h1: "?ps \<noteq> []" and h1': "?qs \<noteq> []"
    by simp_all
  have h2: "\<forall>op. \<not> fails ?e op"
    by (simp add: env_ok_def)
  have t: "spec_discounted (cart_total ?ps) (found_coupon ''u1'' None ?w) = Fin 20000"
    by code_simp
  have t': "spec_discounted (cart_total ?qs) (found_coupon ''u1'' None ?w) = Fin 19999"
    by code_simp
  have u: "ge (Fin 20000) (Fin 20000)" and u': "\<not> ge (Fin 19999) (Fin 20000)"
    by simp_all
  have g: "findOneAndDelete (\<lambda>c. userId c = ''u1'') (coupons ?w) @ [new_gift_coupon ?e ''u1''] =
      [mk_coupon ''u1'' ''GIFTA1B2C3'' (Fin 10) 2592000007 True]"
    by (simp add: world0_def mk_coupon_def new_gift_coupon_def env_ok_def
        coupon_isActive_default_def)
  have o: "coupons ?w = [mk_coupon ''u1'' ''OLD'' (Fin 5) 9 True]"
    by (simp add: world0_def)
  from gift_coupon_at_threshold [OF h1 h2, of "''u1''" None ?w] t
  have "coupons (snd (createCheckoutSession ?e ''u1''
      \<lparr>products = Some ?ps, couponCode = None\<rparr> ?w)) =
      findOneAndDelete (\<lambda>c. userId c = ''u1'') (coupons ?w) @ [new_gift_coupon ?e ''u1'']"
    by simp
  then have a: "coupons (snd (createCheckoutSession ?e ''u1''
      \<lparr>products = Some ?ps, couponCode = None\<rparr> ?w)) =
      [mk_coupon ''u1'' ''GIFTA1B2C3'' (Fin 10) 2592000007 True]"
    by (simp only: g)
  from gift_coupon_at_threshold [OF h1' h2, of "''u1''" None ?w] t'
  have "coupons (snd (createCheckoutSession ?e ''u1''
      \<lparr>products = Some ?qs, couponCode = None\<rparr> ?w)) = coupons ?w"
    by simp
  then have b: "coupons (snd (createCheckoutSession ?e ''u1''
      \<lparr>products = Some ?qs, couponCode = None\<rparr> ?w)) = [mk_coupon ''u1'' ''OLD'' (Fin 5) 9 True]"
    by (simp only: o)
  have i: "distinct (map userId (coupons ?w))"
    by simp
  have n: "new_gift_coupon ?e ''u1'' = mk_coupon ''u1'' ''GIFTA1B2C3'' (Fin 10) 2592000007 True"
    by (simp add: mk_coupon_def new_gift_coupon_def env_ok_def coupon_isActive_default_def)
  from gift_coupon_at_threshold [OF h1 h2, of "''u1''" None ?w] t i
  have "filter (\<lambda>c. userId c = ''u1'')
      (coupons (snd (createCheckoutSession ?e ''u1''
         \<lparr>products = Some ?ps, couponCode = None\<rparr> ?w))) = [new_gift_coupon ?e ''u1'']"
    by simp
  then have f: "filter (\<lambda>c. userId c = ''u1'')
      (coupons (snd (createCheckoutSession ?e ''u1''
         \<lparr>products = Some ?ps, couponCode = None\<rparr> ?w))) =
      [mk_coupon ''u1'' ''GIFTA1B2C3'' (Fin 10) 2592000007 True]"
    by (simp only: n)
  show ?thesis
    using h1 h1' h2 t u i f t' u' a b by (simp only: simp_thms)
qed

text \<open>
  C7, as the code has it. A checkout that gets as far as the gift step with a total,
  as the handler computes it in double arithmetic, of at least 20000 awaits
  \<open>createNewCoupon\<close> inside the handler's \<open>try\<close>: when the deletion or the save of
  the coupon rejects, the answer is the 500 of the \<open>catch\<close> block, although the
  gateway has the session already; when neither rejects, the answer is the session
  id and the total.
\<close>

theorem gift_failure_fails_checkout:
  assumes "ps \<noteq> []" and "reaches_gift_step e uid cc w"
    and "ge (spec_discounted (cart_total ps) (found_coupon uid cc w)) (Fin 20000)"
  shows "(fails e CouponFindOneAndDelete \<or> fails e CouponSave \<longrightarrow>
            fst (createCheckoutSession e uid \<lparr>products = Some ps, couponCode = cc\<rparr> w) =
              CheckoutError \<and>
            status (fst (createCheckoutSession e uid \<lparr>products = Some ps, couponCode = cc\<rparr> w)) =
              Some 500 \<and>
            sessions_created (stripe (snd (createCheckoutSession e uid
                \<lparr>products = Some ps, couponCode = cc\<rparr> w))) =
              sessions_created (stripe w) @
                [checkout_request e uid cc ps (map lineItem ps) (found_coupon uid cc w)]) \<and>
         (\<not> fails e CouponFindOneAndDelete \<and> \<not> fails e CouponSave \<longrightarrow>
            fst (createCheckoutSession e uid \<lparr>products = Some ps, couponCode = cc\<rparr> w) =
              CheckoutOk (stripe_session_id e)
                (div100 (spec_discounted (cart_total ps) (found_coupon uid cc w))))"
proof (intro conjI impI)
  note run = createCheckoutSession_gift_step [OF assms(1,2)]
  let ?r = "createNewCoupon e uid (gateway_after e uid cc ps w)"
  have unfold: "createCheckoutSession e uid \<lparr>products = Some ps, couponCode = cc\<rparr> w =
      (case ?r of
         (Inl err, w3) \<Rightarrow> (CheckoutError, w3)
       | (Inr c, w3) \<Rightarrow> (CheckoutOk (stripe_session_id e)
            (div100 (spec_discounted (cart_total ps) (found_coupon uid cc w))), w3))"
    using assms(3) by (simp add: run Let_def)
  {
    assume "fails e CouponFindOneAndDelete \<or> fails e CouponSave"
    then obtain err where "fst ?r = Inl err"
      using createNewCoupon_failure by blast
    then have r: "?r = (Inl err, snd ?r)"
      by (simp add: prod_eq_iff)
    have res: "createCheckoutSession e uid \<lparr>products = Some ps, couponCode = cc\<rparr> w =
        (CheckoutError, snd ?r)"
      by (subst unfold, subst r) simp
    show "fst (createCheckoutSession e uid \<lparr>products = Some ps, couponCode = cc\<rparr> w) =
        CheckoutError"
      by (simp add: res)
    show "status (fst (createCheckoutSession e uid \<lparr>products = Some ps, couponCode = cc\<rparr> w)) =
        Some 500"
      by (simp add: res)
    show "sessions_created (stripe (snd (createCheckoutSession e uid
          \<lparr>products = Some ps, couponCode = cc\<rparr> w))) =
        sessions_created (stripe w) @
          [checkout_request e uid cc ps (map lineItem ps) (found_coupon uid cc w)]"
      by (simp add: res createNewCoupon_stripe gateway_after_sessions)
  }
  {
    assume "\<not> fails e CouponFindOneAndDelete \<and> \<not> fails e CouponSave"
    then show "fst (createCheckoutSession e uid \<lparr>products = Some ps, couponCode = cc\<rparr> w) =
        CheckoutOk (stripe_session_id e)
          (div100 (spec_discounted (cart_total ps) (found_coupon uid cc w)))"
      by (simp add: unfold createNewCoupon_no_failure)
  }
qed

text \<open>
  C7, as the spec has it, fails: with a cart of 200.00 and a coupon store whose save
  rejects, the gateway session is created and the checkout answers 500.
\<close>

theorem gift_failure_counterexample:
  "sessions_created (stripe (snd (createCheckoutSession (env_failing CouponSave 0 no_sessions) ''u1''
       \<lparr>products = Some [mk_product ''a'' (Fin 100) (Fin 2)], couponCode = None\<rparr> world0))) \<noteq> [] \<and>
   fst (createNewCoupon (env_failing CouponSave 0 no_sessions) ''u1''
       (gateway_after (env_failing CouponSave 0 no_sessions) ''u1'' None
          [mk_product ''a'' (Fin 100) (Fin 2)] world0)) = Inl CouponSave \<and>
   fst (createCheckoutSession (env_failing CouponSave 0 no_sessions) ''u1''
       \<lparr>products = Some [mk_product ''a'' (Fin 100) (Fin 2)], couponCode = None\<rparr> world0) = CheckoutError"
  by code_simp

theorem gift_failure_fails_checkout_witness:
  "[mk_product ''a'' (Fin 100) (Fin 2)] \<noteq> [] \<and>
   reaches_gift_step (env_failing CouponSave 0 no_sessions) ''u1'' None world0 \<and>
   ge (spec_discounted (cart_total [mk_product ''a'' (Fin 100) (Fin 2)]) (found_coupon ''u1'' None world0))
     (Fin 20000) \<and>
   fails (env_failing CouponSave 0 no_sessions) CouponSave \<and>
   status (fst (createCheckoutSession (env_failing CouponSave 0 no_sessions) ''u1''
       \<lparr>products = Some [mk_product ''a'' (Fin 100) (Fin 2)], couponCode = None\<rparr> world0)) = Some 500 \<and>
   reaches_gift_step (env_ok 0 no_sessions) ''u1'' None world0 \<and>
   \<not> fails (env_ok 0 no_sessions) CouponFindOneAndDelete \<and>
   \<not> fails (env_ok 0 no_sessions) CouponSave \<and>
   fst (createCheckoutSession (env_ok 0 no_sessions) ''u1''
       \<lparr>products = Some [mk_product ''a'' (Fin 100) (Fin 2)], couponCode = None\<rparr> world0) =
     CheckoutOk ''cs_1'' (Fin 200)"
proof -
  let ?e = "env_failing CouponSave 0 no_sessions"
  let ?ps = "[mk_product ''a'' (Fin 100) (Fin 2)]"
  have h1: "?ps \<noteq> []"
    by simp
  have h2: "reaches_gift_step ?e ''u1'' None world0"
    by code_simp
  have h3: "ge (spec_discounted (cart_total ?ps) (found_coupon ''u1'' None world0)) (Fin 20000)"
    by code_simp
  have f: "fails ?e CouponSave"
    by code_simp
  from gift_failure_fails_checkout [OF h1 h2 h3] f
  have a: "status (fst (createCheckoutSession ?e ''u1''
      \<lparr>products = Some ?ps, couponCode = None\<rparr> world0)) = Some 500"
    by blast
  let ?ok = "env_ok 0 no_sessions"
  have k2: "reaches_gift_step ?ok ''u1'' None world0"
    by code_simp
  have k4: "\<not> fails ?ok CouponFindOneAndDelete" and k5: "\<not> fails ?ok CouponSave"
    by (simp_all add: env_ok_def)
  have v: "CheckoutOk (stripe_session_id ?ok)
      (div100 (spec_discounted (cart_total ?ps) (found_coupon ''u1'' None world0))) =
      CheckoutOk ''cs_1'' (Fin 200)"
    by code_simp
  from gift_failure_fails_checkout [OF h1 k2 h3] k4 k5
  have "fst (createCheckoutSession ?ok ''u1'' \<lparr>products = Some ?ps, couponCode = None\<rparr> world0) =
      CheckoutOk (stripe_session_id ?ok)
        (div100 (spec_discounted (cart_total ?ps) (found_coupon ''u1'' None world0)))"
    by blast
  then have b: "fst (createCheckoutSession ?ok ''u1''
      \<lparr>products = Some ?ps, couponCode = None\<rparr> world0) = CheckoutOk ''cs_1'' (Fin 200)"
    by (simp only: v)
  show ?thesis
    using h1 h2 h3 f a k2 k4 k5 b by (simp only: simp_thms)
qed

text \<open>
  C9. When the gateway reports a payment status other than \<open>paid\<close>, the settlement
  handler changes nothing: the store and the coupons are as before, no order is
  added, and the handler sends no response at all.
\<close>

theorem checkoutSuccess_unpaid:
  assumes "stripe_retrieve e sessionId = Some s" and "payment_status s \<noteq> ''paid''"
  shows "checkoutSuccess e sessionId w = (NoResponse, w) \<and>
         orders (snd (checkoutSuccess e sessionId w)) = orders w \<and>
         coupons (snd (checkoutSuccess e sessionId w)) = coupons w"
  using assms by (simp add: checkoutSuccess_def)

theorem checkoutSuccess_unpaid_witness:
  "stripe_retrieve (env_ok 0 (one_session ''cs_1''
       ((paid_session ''u1'' ''GIFT10'' (Fin 4048) [])\<lparr>payment_status := ''unpaid''\<rparr>))) ''cs_1'' =
     Some ((paid_session ''u1'' ''GIFT10'' (Fin 4048) [])\<lparr>payment_status := ''unpaid''\<rparr>) \<and>
   payment_status ((paid_session ''u1'' ''GIFT10'' (Fin 4048) [])\<lparr>payment_status := ''unpaid''\<rparr>) \<noteq> ''paid'' \<and>
   checkoutSuccess (env_ok 0 (one_session ''cs_1''
       ((paid_session ''u1'' ''GIFT10'' (Fin 4048) [])\<lparr>payment_status := ''unpaid''\<rparr>))) ''cs_1''
     (world0\<lparr>coupons := [mk_coupon ''u1'' ''GIFT10'' (Fin 10) 1000 True]\<rparr>) =
     (NoResponse, world0\<lparr>coupons := [mk_coupon ''u1'' ''GIFT10'' (Fin 10) 1000 True]\<rparr>)"
proof -
  let ?s = "(paid_session ''u1'' ''GIFT10'' (Fin 4048) [])\<lparr>payment_status := ''unpaid''\<rparr>"
  let ?e = "env_ok 0 (one_session ''cs_1'' ?s)"
  have h1: "stripe_retrieve ?e ''cs_1'' = Some ?s"
    by (simp add: env_ok_def one_session_def)
  have h2: "payment_status ?s \<noteq> ''paid''"
    by simp
  from checkoutSuccess_unpaid [OF h1 h2] h1 h2 show ?thesis
    by (simp only: simp_thms)
qed





text \<open>
  C6. From a store with at most one coupon row per user (the empty store for one),
  after any sequence of requests, each in any environment, and after any further
  sequence of gift issuances for a user, every user has at most one active coupon.
  After at least one issuance for a user, the last of which was not rejected by the
  store, exactly one coupon of that user is active: the gift coupon of that call.
\<close>

theorem one_active_coupon_per_user:
  assumes "distinct (map userId (coupons w))"
  shows "length (active_coupons uid' (run evs w)) \<le> 1 \<and>
         length (active_coupons uid' (issue uid es (run evs w))) \<le> 1 \<and>
         (es \<noteq> [] \<and> \<not> fails (last es) CouponFindOneAndDelete \<and> \<not> fails (last es) CouponSave \<longrightarrow>
            active_coupons uid (issue uid es (run evs w)) = [new_gift_coupon (last es) uid] \<and>
            length (active_coupons uid (issue uid es (run evs w))) = 1)"
proof (intro conjI impI)
  have r: "distinct (map userId (coupons (run evs w)))"
    using assms by (rule run_distinct)
  then show "length (active_coupons uid' (run evs w)) \<le> 1"
    unfolding active_coupons_def by (rule rows_of_user_le_one)
  have i: "distinct (map userId (coupons (issue uid es (run evs w))))"
    using r by (rule issue_distinct)
  then show "length (active_coupons uid' (issue uid es (run evs w))) \<le> 1"
    unfolding active_coupons_def by (rule rows_of_user_le_one)
  assume a: "es \<noteq> [] \<and> \<not> fails (last es) CouponFindOneAndDelete \<and> \<not> fails (last es) CouponSave"
  then have es: "es = butlast es @ [last es]"
    by simp
  have b: "distinct (map userId (coupons (issue uid (butlast es) (run evs w))))"
    using r by (rule issue_distinct)
  have "issue uid es (run evs w) =
      snd (createNewCoupon (last es) uid (issue uid (butlast es) (run evs w)))"
    by (subst es) (rule issue_snoc)
  with a b show g: "active_coupons uid (issue uid es (run evs w)) = [new_gift_coupon (last es) uid]"
    by (simp add: createNewCoupon_active)
  then show "length (active_coupons uid (issue uid es (run evs w))) = 1"
    by simp
qed

text \<open>
  Two checkouts of 200.00 by the same user and then two direct issuances: the one
  active coupon is the gift coupon of the last issuance.
\<close>

theorem one_active_coupon_per_user_witness:
  "distinct (map userId (coupons world0)) \<and>
   [env_ok 5 no_sessions, env_ok 9 no_sessions] \<noteq> [] \<and>
   \<not> fails (last [env_ok 5 no_sessions, env_ok 9 no_sessions]) CouponFindOneAndDelete \<and>
   \<not> fails (last [env_ok 5 no_sessions, env_ok 9 no_sessions]) CouponSave \<and>
   length (active_coupons ''u1''
     (run [(env_ok 1 no_sessions,
            Checkout ''u1'' \<lparr>products = Some [mk_product ''a'' (Fin 100) (Fin 2)], couponCode = None\<rparr>),
           (env_ok 2 no_sessions,
            Checkout ''u1'' \<lparr>products = Some [mk_product ''a'' (Fin 100) (Fin 2)], couponCode = None\<rparr>)]
        world0)) \<le> 1 \<and>
   active_coupons ''u1''
     (issue ''u1'' [env_ok 5 no_sessions, env_ok 9 no_sessions]
       (run [(env_ok 1 no_sessions,
              Checkout ''u1'' \<lparr>products = Some [mk_product ''a'' (Fin 100) (Fin 2)], couponCode = None\<rparr>),
             (env_ok 2 no_sessions,
              Checkout ''u1'' \<lparr>products = Some [mk_product ''a'' (Fin 100) (Fin 2)], couponCode = None\<rparr>)]
          world0)) =
     [mk_coupon ''u1'' ''GIFTA1B2C3'' (Fin 10) 2592000009 True]"
proof -
  let ?es = "[env_ok 5 no_sessions, env_ok 9 no_sessions]"
  let ?evs = "[(env_ok 1 no_sessions,
      Checkout ''u1'' \<lparr>products = Some [mk_product ''a'' (Fin 100) (Fin 2)], couponCode = None\<rparr>),
     (env_ok 2 no_sessions,
      Checkout ''u1'' \<lparr>products = Some [mk_product ''a'' (Fin 100) (Fin 2)], couponCode = None\<rparr>)]"
  have h: "distinct (map userId (coupons world0))"
    by (simp add: world0_def)
  have e1: "?es \<noteq> []"
    by simp
  have e2: "\<not> fails (last ?es) CouponFindOneAndDelete" and e3: "\<not> fails (last ?es) CouponSave"
    by (simp_all add: env_ok_def)
  have g: "new_gift_coupon (last ?es) ''u1'' = mk_coupon ''u1'' ''GIFTA1B2C3'' (Fin 10) 2592000009 True"
    by (simp add: new_gift_coupon_def env_ok_def mk_coupon_def coupon_isActive_default_def)
  note main = one_active_coupon_per_user [OF h, of "''u1''" ?evs "''u1''" ?es]
  from main have a: "length (active_coupons ''u1'' (run ?evs world0)) \<le> 1"
    by (rule conjunct1)
  from main e1 e2 e3 have "active_coupons ''u1'' (issue ''u1'' ?es (run ?evs world0)) =
      [new_gift_coupon (last ?es) ''u1'']"
    by blast
  then have b: "active_coupons ''u1'' (issue ''u1'' ?es (run ?evs world0)) =
      [mk_coupon ''u1'' ''GIFTA1B2C3'' (Fin 10) 2592000009 True]"
    by (simp only: g)
  show ?thesis
    using h e1 e2 e3 a b by (simp only: simp_thms)
qed



text \<open>
  C3 fails on the checkout. A coupon that expired at time 1000 and is still flagged
  active is refused by \<open>validateCoupon\<close> at time 5000, and yet a checkout at that time
  takes its 10 percent off: 100.00 becomes 90.00.
\<close>

theorem expired_coupon_discounts_checkout:
  "expirationDate (mk_coupon ''u1'' ''GIFT10'' (Fin 10) 1000 True) < now (env_ok 5000 no_sessions) \<and>
   fst (validateCoupon (env_ok 5000 no_sessions) ''u1'' ''GIFT10''
     (world0\<lparr>coupons := [mk_coupon ''u1'' ''GIFT10'' (Fin 10) 1000 True]\<rparr>)) = CouponExpired \<and>
   fst (createCheckoutSession (env_ok 5000 no_sessions) ''u1''
     \<lparr>products = Some [mk_product ''a'' (Fin 100) (Fin 1)], couponCode = Some ''GIFT10''\<rparr>
     (world0\<lparr>coupons := [mk_coupon ''u1'' ''GIFT10'' (Fin 10) 1000 True]\<rparr>)) = CheckoutOk ''cs_1'' (Fin 90) \<and>
   fst (createCheckoutSession (env_ok 5000 no_sessions) ''u1''
     \<lparr>products = Some [mk_product ''a'' (Fin 100) (Fin 1)], couponCode = None\<rparr>
     (world0\<lparr>coupons := [mk_coupon ''u1'' ''GIFT10'' (Fin 10) 1000 True]\<rparr>)) = CheckoutOk ''cs_1'' (Fin 100)"
  by code_simp

text \<open>
  C5, as the code has it. When the lookup and the save are not rejected:
  no active coupon with the code and the user gives \<open>Coupon not found\<close> and no change;
  a match whose expiration date lies strictly before the clock is set inactive in the
  store and gives \<open>Coupon expired\<close>; a match whose expiration date is the clock's
  time or later gives the coupon's code and percentage and no change. After the
  expiry, in a store with one coupon row per user, the user has no active coupon:
  \<open>validateCoupon\<close> gives \<open>Coupon not found\<close>, \<open>getCoupon\<close> gives null, and whatever
  requests follow, an active coupon of the user is a gift coupon issued by one of them.
\<close>

theorem validateCoupon_outcomes:
  assumes "\<not> fails e CouponFindOne" and "\<not> fails e CouponSave"
  shows "(findOne (\<lambda>c. code c = cd \<and> userId c = uid \<and> isActive c) (coupons w) = None \<longrightarrow>
            validateCoupon e uid cd w = (CouponNotFound, w)) \<and>
         (\<forall>c. findOne (\<lambda>c. code c = cd \<and> userId c = uid \<and> isActive c) (coupons w) = Some c \<and>
              expirationDate c < now e \<longrightarrow>
            fst (validateCoupon e uid cd w) = CouponExpired \<and>
            mset (coupons (snd (validateCoupon e uid cd w))) + {#c#} =
              mset (coupons w) + {#c\<lparr>isActive := False\<rparr>#} \<and>
            (distinct (map userId (coupons w)) \<longrightarrow>
               active_coupons uid (snd (validateCoupon e uid cd w)) = [] \<and>
               (\<forall>e'. \<not> fails e' CouponFindOne \<longrightarrow>
                  fst (validateCoupon e' uid cd (snd (validateCoupon e uid cd w))) = CouponNotFound \<and>
                  fst (getCoupon e' uid (snd (validateCoupon e uid cd w))) = CouponJson None) \<and>
               (\<forall>evs d. d \<in> set (active_coupons uid (run evs (snd (validateCoupon e uid cd w)))) \<longrightarrow>
                  (\<exists>er\<in>set evs. d = new_gift_coupon (fst er) uid)))) \<and>
         (\<forall>c. findOne (\<lambda>c. code c = cd \<and> userId c = uid \<and> isActive c) (coupons w) = Some c \<and>
              now e \<le> expirationDate c \<longrightarrow>
            validateCoupon e uid cd w = (CouponValid (code c) (discountPercentage c), w))"
proof (intro conjI allI impI; (elim conjE)?)
  assume "findOne (\<lambda>c. code c = cd \<and> userId c = uid \<and> isActive c) (coupons w) = None"
  with assms show "validateCoupon e uid cd w = (CouponNotFound, w)"
    by (simp add: validateCoupon_def)
next
  fix c
  assume "findOne (\<lambda>c. code c = cd \<and> userId c = uid \<and> isActive c) (coupons w) = Some c"
    and "now e \<le> expirationDate c"
  with assms show "validateCoupon e uid cd w = (CouponValid (code c) (discountPercentage c), w)"
    by (simp add: validateCoupon_def)
next
  fix c
  assume f: "findOne (\<lambda>c. code c = cd \<and> userId c = uid \<and> isActive c) (coupons w) = Some c"
    and x: "expirationDate c < now e"
  note eq = validateCoupon_expired_eq [OF assms f x]
  show "fst (validateCoupon e uid cd w) = CouponExpired"
    by (simp add: eq)
  show "mset (coupons (snd (validateCoupon e uid cd w))) + {#c#} =
      mset (coupons w) + {#c\<lparr>isActive := False\<rparr>#}"
    using findOneAndUpdate_mset [OF f] by (simp add: eq)
  assume d: "distinct (map userId (coupons w))"
  let ?w' = "snd (validateCoupon e uid cd w)"
  note none = validateCoupon_expired_no_active [OF assms f x d]
  show a: "active_coupons uid ?w' = []"
    unfolding active_coupons_def using none by (rule findOne_None_filter)
  {
    fix e' :: env
    assume e': "\<not> fails e' CouponFindOne"
    have "findOne (\<lambda>c. code c = cd \<and> userId c = uid \<and> isActive c) (coupons ?w') = None"
      using none by (rule findOne_weaker_None) simp
    with e' show "fst (validateCoupon e' uid cd ?w') = CouponNotFound"
      by (simp add: validateCoupon_def)
    from e' none show "fst (getCoupon e' uid ?w') = CouponJson None"
      by (simp add: getCoupon_def)
  }
  {
    fix evs :: "(env \<times> request) list" and d :: coupon
    assume "d \<in> set (active_coupons uid (run evs ?w'))"
    then have m: "d \<in> set (coupons (run evs ?w'))" and u: "userId d = uid" and i: "isActive d"
      by (simp_all add: active_coupons_def)
    from m i have "d \<in> set (coupons ?w') \<or> (\<exists>er\<in>set evs. d = new_gift_coupon (fst er) (userId d))"
      by (rule run_active)
    moreover have "d \<notin> set (coupons ?w')"
    proof
      assume "d \<in> set (coupons ?w')"
      with u i have "d \<in> set (active_coupons uid ?w')"
        by (simp add: active_coupons_def)
      with a show False
        by simp
    qed
    ultimately show "\<exists>er\<in>set evs. d = new_gift_coupon (fst er) uid"
      using u by simp
  }
qed

text \<open>
  C5, as the spec has it, fails at the boundary: at the very time of the expiration
  date (\<open>now = expirationDate\<close>) the coupon is still reported valid and stays active.
\<close>

theorem validateCoupon_boundary_counterexample:
  "expirationDate (mk_coupon ''u1'' ''GIFT10'' (Fin 10) 1000 True) \<le> now (env_ok 1000 no_sessions) \<and>
   validateCoupon (env_ok 1000 no_sessions) ''u1'' ''GIFT10''
     (world0\<lparr>coupons := [mk_coupon ''u1'' ''GIFT10'' (Fin 10) 1000 True]\<rparr>) =
     (CouponValid ''GIFT10'' (Fin 10), world0\<lparr>coupons := [mk_coupon ''u1'' ''GIFT10'' (Fin 10) 1000 True]\<rparr>)"
  by (simp add: validateCoupon_def env_ok_def world0_def mk_coupon_def)



text \<open>
  A coupon that expires at 1000: one millisecond later it is expired and a further
  validation does not find it; at 1000 itself it is valid; an empty store has no
  coupon to find.
\<close>

theorem validateCoupon_outcomes_witness:
  "\<not> fails (env_ok 1001 no_sessions) CouponFindOne \<and>
   \<not> fails (env_ok 1001 no_sessions) CouponSave \<and>
   findOne (\<lambda>c. code c = ''GIFT10'' \<and> userId c = ''u1'' \<and> isActive c)
     (coupons (world0\<lparr>coupons := [mk_coupon ''u1'' ''GIFT10'' (Fin 10) 1000 True]\<rparr>)) =
     Some (mk_coupon ''u1'' ''GIFT10'' (Fin 10) 1000 True) \<and>
   expirationDate (mk_coupon ''u1'' ''GIFT10'' (Fin 10) 1000 True) < now (env_ok 1001 no_sessions) \<and>
   distinct (map userId (coupons (world0\<lparr>coupons := [mk_coupon ''u1'' ''GIFT10'' (Fin 10) 1000 True]\<rparr>))) \<and>
   fst (validateCoupon (env_ok 1001 no_sessions) ''u1'' ''GIFT10''
     (world0\<lparr>coupons := [mk_coupon ''u1'' ''GIFT10'' (Fin 10) 1000 True]\<rparr>)) = CouponExpired \<and>
   \<not> fails (env_ok 2000 no_sessions) CouponFindOne \<and>
   fst (validateCoupon (env_ok 2000 no_sessions) ''u1'' ''GIFT10''
     (snd (validateCoupon (env_ok 1001 no_sessions) ''u1'' ''GIFT10''
        (world0\<lparr>coupons := [mk_coupon ''u1'' ''GIFT10'' (Fin 10) 1000 True]\<rparr>)))) = CouponNotFound \<and>
   now (env_ok 1000 no_sessions) \<le> expirationDate (mk_coupon ''u1'' ''GIFT10'' (Fin 10) 1000 True) \<and>
   validateCoupon (env_ok 1000 no_sessions) ''u1'' ''GIFT10''
     (world0\<lparr>coupons := [mk_coupon ''u1'' ''GIFT10'' (Fin 10) 1000 True]\<rparr>) =
     (CouponValid ''GIFT10'' (Fin 10), world0\<lparr>coupons := [mk_coupon ''u1'' ''GIFT10'' (Fin 10) 1000 True]\<rparr>) \<and>
   findOne (\<lambda>c. code c = ''GIFT10'' \<and> userId c = ''u1'' \<and> isActive c) (coupons world0) = None \<and>
   validateCoupon (env_ok 1001 no_sessions) ''u1'' ''GIFT10'' world0 = (CouponNotFound, world0)"
proof -
  let ?c = "mk_coupon ''u1'' ''GIFT10'' (Fin 10) 1000 True"
  let ?w = "world0\<lparr>coupons := [?c]\<rparr>"
  let ?q = "\<lambda>c. code c = ''GIFT10'' \<and> userId c = ''u1'' \<and> isActive c"
  let ?e = "env_ok 1001 no_sessions"
  let ?at = "env_ok 1000 no_sessions"
  let ?later = "env_ok 2000 no_sessions"
  have f1: "\<not> fails ?e CouponFindOne" and f2: "\<not> fails ?e CouponSave"
    and g1: "\<not> fails ?at CouponFindOne" and g2: "\<not> fails ?at CouponSave"
    and k1: "\<not> fails ?later CouponFindOne"
    by (simp_all add: env_ok_def)
  have m: "findOne ?q (coupons ?w) = Some ?c"
    by (simp add: mk_coupon_def)
  have x: "expirationDate ?c < now ?e"
    by (simp add: mk_coupon_def env_ok_def)
  have v: "now ?at \<le> expirationDate ?c"
    by (simp add: mk_coupon_def env_ok_def)
  have d: "distinct (map userId (coupons ?w))"
    by simp
  have n: "findOne ?q (coupons world0) = None"
    by (simp add: world0_def)
  have cd: "code ?c = ''GIFT10''" "discountPercentage ?c = Fin 10"
    by (simp_all add: mk_coupon_def)
  note expired = validateCoupon_outcomes [OF f1 f2, of "''GIFT10''" "''u1''" ?w,
      THEN conjunct2, THEN conjunct1, rule_format, OF conjI, OF m x]
  have a: "fst (validateCoupon ?e ''u1'' ''GIFT10'' ?w) = CouponExpired"
    using expired by (rule conjunct1)
  have b: "fst (validateCoupon ?later ''u1'' ''GIFT10''
      (snd (validateCoupon ?e ''u1'' ''GIFT10'' ?w))) = CouponNotFound"
    using expired d k1 by blast
  have "validateCoupon ?at ''u1'' ''GIFT10'' ?w = (CouponValid (code ?c) (discountPercentage ?c), ?w)"
    using validateCoupon_outcomes [OF g1 g2, of "''GIFT10''" "''u1''" ?w] m v by blast
  then have c: "validateCoupon ?at ''u1'' ''GIFT10'' ?w = (CouponValid ''GIFT10'' (Fin 10), ?w)"
    by (simp only: cd)
  have e: "validateCoupon ?e ''u1'' ''GIFT10'' world0 = (CouponNotFound, world0)"
    using validateCoupon_outcomes [OF f1 f2, of "''GIFT10''" "''u1''" world0] n by blast
  show ?thesis
    using f1 f2 m x d a k1 b v c n e by (simp only: simp_thms)
qed

end
